theory Spec2Isabelle
  imports Main "HOL-Library.Word" "HOL-Library.Sublist"
begin

section \<open>Data model\<close>

text \<open>
  The Go types \<open>net.HardwareAddr\<close> and \<open>net.IP\<close> are byte slices. A nil slice and an
  empty slice have the same length, the same \<open>String()\<close> and are equal for
  \<open>bytes.Equal\<close>, so both are the empty list here. A Go \<open>string\<close> is a sequence of
  bytes, as \<open>string\<close> is in HOL.
\<close>

type_synonym byte = "8 word"

record StaticDhcpHost =
  MacAddress :: "byte list"
  IPAddress :: "byte list"
  HostName :: string

text \<open>The zero value \<open>StaticDhcpHost{}\<close>.\<close>

definition emptyHost :: StaticDhcpHost where
  "emptyHost = \<lparr>MacAddress = [], IPAddress = [], HostName = []\<rparr>"

section \<open>Errors\<close>

text \<open>
  Go's \<open>error\<close> values that the program builds or receives. The three sentinels of the
  model package and the sentinels of \<open>io\<close> and \<open>io/fs\<close> are constructors of their own;
  \<open>Errorf\<close> carries the text of an \<open>fmt.Errorf\<close> or \<open>errors.New\<close> value made on the
  spot; \<open>AddrError\<close> is \<open>net.AddrError{Err, Addr}\<close>; \<open>JoinError\<close> is what
  \<open>errors.Join\<close> returns. A nil error is \<open>None\<close> of \<open>error option\<close>.
\<close>

datatype error =
    ErrDHCPHostMissingMACAddress
  | ErrDHCPHostMissingIPAddress
  | ErrDHCPHostMissingHostName
  | Errorf string
  | AddrError string string
  | EOF
  | ErrUnexpectedEOF
  | ErrNotExist
  | ErrPermission
  | JoinError "error list"

text \<open>\<open>strings.Join\<close>.\<close>

fun stringsJoin :: "string list \<Rightarrow> string \<Rightarrow> string" where
  "stringsJoin [] sep = []"
| "stringsJoin [x] sep = x"
| "stringsJoin (x # y # ys) sep = x @ sep @ stringsJoin (y # ys) sep"

text \<open>The method \<open>Error()\<close> of each error value.\<close>

fun Error :: "error \<Rightarrow> string" where
  "Error ErrDHCPHostMissingMACAddress = ''invalid DHCP host: missing MAC address''"
| "Error ErrDHCPHostMissingIPAddress = ''invalid DHCP host: missing IP address''"
| "Error ErrDHCPHostMissingHostName = ''invalid DHCP host: missing hostname''"
| "Error (Errorf msg) = msg"
| "Error (AddrError e addr) = (if addr \<noteq> [] then ''address '' @ addr @ '': '' @ e else e)"
| "Error EOF = ''EOF''"
| "Error ErrUnexpectedEOF = ''unexpected EOF''"
| "Error ErrNotExist = ''file does not exist''"
| "Error ErrPermission = ''permission denied''"
| "Error (JoinError es) = stringsJoin (map Error es) [CHR 0x0A]"

text \<open>
  \<open>errors.Join(errs...)\<close>: nil values are discarded, the result is nil when nothing is
  left, and otherwise one error wrapping the remaining ones in order (also when only one
  remains).
\<close>

definition errorsJoin :: "error option list \<Rightarrow> error option" where
  "errorsJoin errs =
     (case List.map_filter id errs of [] \<Rightarrow> None | e # es \<Rightarrow> Some (JoinError (e # es)))"

text \<open>\<open>errors.Is(err, target)\<close>: \<open>err\<close> is the target, or wraps it through joins.\<close>

fun errorsIs :: "error \<Rightarrow> error \<Rightarrow> bool" where
  "errorsIs (JoinError es) target =
     (JoinError es = target \<or> (\<exists>e \<in> set es. errorsIs e target))"
| "errorsIs e target = (e = target)"

section \<open>Textual forms of the addresses\<close>

definition hexDigit :: "nat \<Rightarrow> char" where
  "hexDigit n = ''0123456789abcdef'' ! n"

text \<open>\<open>HardwareAddr.String()\<close>: empty for an empty address, else colon-separated hex pairs.\<close>

fun hwBytes :: "byte list \<Rightarrow> string" where
  "hwBytes [] = []"
| "hwBytes [b] = [hexDigit (unat b div 16), hexDigit (unat b mod 16)]"
| "hwBytes (b # c # cs) =
     hexDigit (unat b div 16) # hexDigit (unat b mod 16) # CHR '':'' # hwBytes (c # cs)"

definition HardwareAddrString :: "byte list \<Rightarrow> string" where
  "HardwareAddrString a = (if length a = 0 then [] else hwBytes a)"

text \<open>\<open>appendDecimal\<close> of \<open>net/netip\<close>: a byte in decimal, no leading zero.\<close>

definition appendDecimal :: "nat \<Rightarrow> string" where
  "appendDecimal x =
     (if x \<ge> 100 then [hexDigit (x div 100)] else []) @
     (if x \<ge> 10 then [hexDigit (x div 10 mod 10)] else []) @
     [hexDigit (x mod 10)]"

text \<open>\<open>appendHex\<close> of \<open>net/netip\<close>: a 16-bit group in hex, no leading zero.\<close>

definition appendHex :: "nat \<Rightarrow> string" where
  "appendHex x =
     (if x \<ge> 0x1000 then [hexDigit (x div 0x1000)] else []) @
     (if x \<ge> 0x100 then [hexDigit (x div 0x100 mod 16)] else []) @
     (if x \<ge> 0x10 then [hexDigit (x div 0x10 mod 16)] else []) @
     [hexDigit (x mod 16)]"

text \<open>\<open>hexString\<close> of package \<open>net\<close>: two hex digits for each byte.\<close>

fun hexString :: "byte list \<Rightarrow> string" where
  "hexString [] = []"
| "hexString (b # bs) = hexDigit (unat b div 16) # hexDigit (unat b mod 16) # hexString bs"

text \<open>\<open>IP.To4()\<close>: the four bytes of an IPv4 address in either form, else nil.\<close>

definition To4 :: "byte list \<Rightarrow> byte list" where
  "To4 ip =
     (if length ip = 4 then ip
      else if length ip = 16 \<and> take 10 ip = replicate 10 0 \<and> ip ! 10 = 0xff \<and> ip ! 11 = 0xff
      then drop 12 ip
      else [])"

definition string4 :: "byte list \<Rightarrow> string" where
  "string4 p = stringsJoin (map (\<lambda>b. appendDecimal (unat b)) p) ''.''"

text \<open>The eight 16-bit groups of a 16-byte address.\<close>

fun v6u16 :: "byte list \<Rightarrow> nat list" where
  "v6u16 (hi # lo # rest) = (unat hi * 256 + unat lo) # v6u16 rest"
| "v6u16 _ = []"

text \<open>
  The first loop of \<open>appendTo6\<close>: the longest run of at least two zero groups, the
  earliest one among equals, as (start, end); (255, 255) when there is none.
\<close>

definition zeroRunFrom :: "nat list \<Rightarrow> nat \<Rightarrow> nat" where
  "zeroRunFrom gs i = i + length (takeWhile (\<lambda>g. g = 0) (drop i gs))"

fun zeroRun :: "nat list \<Rightarrow> nat list \<Rightarrow> nat \<times> nat \<Rightarrow> nat \<times> nat" where
  "zeroRun gs [] z = z"
| "zeroRun gs (i # is) (zeroStart, zeroEnd) =
     (let j = zeroRunFrom gs i; l = j - i
      in if l \<ge> 2 \<and> l > zeroEnd - zeroStart then zeroRun gs is (i, j)
         else zeroRun gs is (zeroStart, zeroEnd))"

text \<open>The second loop of \<open>appendTo6\<close>, with \<open>fuel\<close> bounding the groups still to visit.\<close>

fun appendTo6 :: "nat list \<Rightarrow> nat \<Rightarrow> nat \<Rightarrow> nat \<Rightarrow> nat \<Rightarrow> string" where
  "appendTo6 gs zeroStart zeroEnd i 0 = []"
| "appendTo6 gs zeroStart zeroEnd i (Suc fuel) =
     (if i \<ge> 8 then []
      else if i = zeroStart then
        (if zeroEnd \<ge> 8 then ''::''
         else ''::'' @ appendHex (gs ! zeroEnd) @ appendTo6 gs zeroStart zeroEnd (zeroEnd + 1) fuel)
      else (if i > 0 then '':'' else []) @ appendHex (gs ! i)
           @ appendTo6 gs zeroStart zeroEnd (i + 1) fuel)"

definition string6 :: "byte list \<Rightarrow> string" where
  "string6 ip =
     (let gs = v6u16 ip; z = zeroRun gs [0 ..< 8] (255, 255)
      in appendTo6 gs (fst z) (snd z) 0 8)"

text \<open>\<open>IP.String()\<close>.\<close>

definition IPString :: "byte list \<Rightarrow> string" where
  "IPString ip =
     (if length ip = 0 then ''<nil>''
      else if length ip \<noteq> 4 \<and> length ip \<noteq> 16 then ''?'' @ hexString ip
      else if length (To4 ip) = 4 then string4 (To4 ip)
      else string6 ip)"

section \<open>Encoding an entry\<close>

text \<open>\<open>StaticDhcpHost.check\<close>: every missing field adds its error to the joined error.\<close>

definition check :: "StaticDhcpHost \<Rightarrow> error option" where
  "check h =
     (let err = None;
          err = (if HardwareAddrString (MacAddress h) = []
                 then errorsJoin [err, Some ErrDHCPHostMissingMACAddress] else err);
          err = (if IPString (IPAddress h) = ''<nil>''
                 then errorsJoin [err, Some ErrDHCPHostMissingIPAddress] else err);
          err = (if HostName h = []
                 then errorsJoin [err, Some ErrDHCPHostMissingHostName] else err)
      in err)"

text \<open>\<open>StaticDhcpHost.ToConfig\<close>: the pair of the line and the error.\<close>

definition ToConfig :: "StaticDhcpHost \<Rightarrow> string \<times> error option" where
  "ToConfig h =
     (case check h of
        Some err \<Rightarrow> ([], Some err)
      | None \<Rightarrow>
          (''dhcp-host='' @ HardwareAddrString (MacAddress h) @ '','' @ IPString (IPAddress h)
             @ '','' @ HostName h, None))"


section \<open>Library functions used by the decoder\<close>

text \<open>
  \<open>strings.Split(s, ",")\<close> with a one-byte separator: the pieces between separators,
  one piece more than there are separators, so the empty string gives one empty piece.
\<close>

fun stringsSplit :: "string \<Rightarrow> char \<Rightarrow> string list" where
  "stringsSplit [] sep = [[]]"
| "stringsSplit (c # cs) sep =
     (if c = sep then [] # stringsSplit cs sep
      else (case stringsSplit cs sep of
              t # ts \<Rightarrow> (c # t) # ts
            | [] \<Rightarrow> [[c]]))"

subsection \<open>Reading runes: \<open>unicode/utf8\<close>\<close>

definition RuneError :: nat where
  "RuneError = 0xFFFD"

text \<open>
  \<open>utf8.DecodeRune\<close>: the rune at the head of the bytes and its width; an invalid or
  truncated encoding gives \<open>RuneError\<close> of width 1.
\<close>

definition decodeRune :: "string \<Rightarrow> nat \<times> nat" where
  "decodeRune p =
     (case p of
        [] \<Rightarrow> (RuneError, 0)
      | c0 # rest \<Rightarrow>
          (let p0 = (of_char c0 :: nat) in
           if p0 < 0x80 then (p0, 1)
           else if p0 < 0xC2 \<or> 0xF4 < p0 then (RuneError, 1)
           else
            (let sz = (if p0 < 0xE0 then 2 else if p0 < 0xF0 then 3 else (4::nat));
                 lo = (if p0 = 0xE0 then 0xA0 else if p0 = 0xF0 then 0x90 else (0x80::nat));
                 hi = (if p0 = 0xED then 0x9F else if p0 = 0xF4 then 0x8F else (0xBF::nat))
             in if length p < sz then (RuneError, 1)
                else
                 (let b1 = (of_char (p ! 1) :: nat) in
                  if b1 < lo \<or> hi < b1 then (RuneError, 1)
                  else if sz \<le> 2 then ((p0 mod 32) * 64 + b1 mod 64, 2)
                  else
                   (let b2 = (of_char (p ! 2) :: nat) in
                    if b2 < 0x80 \<or> 0xBF < b2 then (RuneError, 1)
                    else if sz \<le> 3
                    then ((p0 mod 16) * 4096 + (b1 mod 64) * 64 + b2 mod 64, 3)
                    else
                     (let b3 = (of_char (p ! 3) :: nat) in
                      if b3 < 0x80 \<or> 0xBF < b3 then (RuneError, 1)
                      else ((p0 mod 8) * 262144 + (b1 mod 64) * 4096 + (b2 mod 64) * 64
                              + b3 mod 64, 4)))))))"

text \<open>
  The runes of a string, as successive \<open>ReadRune\<close> calls of the scanner deliver them:
  the first argument counts the bytes still covered by the rune just decoded.
\<close>

fun decodeRunes :: "nat \<Rightarrow> string \<Rightarrow> nat list" where
  "decodeRunes k [] = []"
| "decodeRunes (Suc k) (c # cs) = decodeRunes k cs"
| "decodeRunes 0 (c # cs) =
     (let (r, size) = decodeRune (c # cs) in r # decodeRunes (size - 1) cs)"

text \<open>\<open>utf8.AppendRune\<close>: the bytes of a rune; surrogates and values out of range become
  \<open>RuneError\<close>.\<close>

definition encodeRune :: "nat \<Rightarrow> string" where
  "encodeRune r =
     (if r \<le> 0x7F then [char_of r]
      else if r \<le> 0x7FF then [char_of (0xC0 + r div 64), char_of (0x80 + r mod 64)]
      else if 0x10FFFF < r \<or> (0xD800 \<le> r \<and> r \<le> 0xDFFF)
      then [char_of (0xEF::nat), char_of (0xBF::nat), char_of (0xBD::nat)]
      else if r \<le> 0xFFFF
      then [char_of (0xE0 + r div 4096), char_of (0x80 + r div 64 mod 64),
            char_of (0x80 + r mod 64)]
      else [char_of (0xF0 + r div 262144), char_of (0x80 + r div 4096 mod 64),
            char_of (0x80 + r div 64 mod 64), char_of (0x80 + r mod 64)])"

subsection \<open>\<open>fmt.Sscanf(token, "dhcp-host=%s", &mac)\<close>\<close>

text \<open>\<open>isSpace\<close> of package \<open>fmt\<close>: the table of Unicode space characters.\<close>

definition isSpace :: "nat \<Rightarrow> bool" where
  "isSpace r =
     ((0x0009 \<le> r \<and> r \<le> 0x000d) \<or> r = 0x0020 \<or> r = 0x0085 \<or> r = 0x00a0 \<or> r = 0x1680
      \<or> (0x2000 \<le> r \<and> r \<le> 0x200a) \<or> r = 0x2028 \<or> r = 0x2029 \<or> r = 0x202f
      \<or> r = 0x205f \<or> r = 0x3000)"

text \<open>
  \<open>advance\<close> on the literal part of the format: each rune of the format must be the next
  rune of the input; the end of the input there is \<open>io.ErrUnexpectedEOF\<close>.
\<close>

fun advance :: "nat list \<Rightarrow> nat list \<Rightarrow> error + nat list" where
  "advance [] inp = Inr inp"
| "advance (f # fs) [] = Inl ErrUnexpectedEOF"
| "advance (f # fs) (r # rs) =
     (if f \<noteq> r then Inl (Errorf ''input does not match format'') else advance fs rs)"

text \<open>
  \<open>SkipSpace\<close> as \<open>Sscanf\<close> runs it (newlines are not spaces there): spaces are passed
  over, a newline is an error.
\<close>

fun SkipSpace :: "nat list \<Rightarrow> error + nat list" where
  "SkipSpace [] = Inr []"
| "SkipSpace (r # rs) =
     (if r = 0x0D \<and> rs \<noteq> [] \<and> hd rs = 0x0A then SkipSpace rs
      else if r = 0x0A then Inl (Errorf ''unexpected newline'')
      else if \<not> isSpace r then Inr (r # rs)
      else SkipSpace rs)"

text \<open>
  The whole call: the literal \<open>dhcp-host=\<close>, then the verb \<open>%s\<close>, which skips spaces,
  fails with \<open>io.EOF\<close> when nothing is left, and otherwise stores the runes up to the next
  space. Input after that word is not looked at. The result is the error, or the word.
\<close>

definition Sscanf_dhcp_host :: "string \<Rightarrow> error + string" where
  "Sscanf_dhcp_host str =
     (case advance (map of_char ''dhcp-host='') (decodeRunes 0 str) of
        Inl err \<Rightarrow> Inl err
      | Inr inp \<Rightarrow>
          (case SkipSpace inp of
             Inl err \<Rightarrow> Inl err
           | Inr [] \<Rightarrow> Inl EOF
           | Inr (r # rs) \<Rightarrow>
               Inr (concat (map encodeRune (takeWhile (\<lambda>r. \<not> isSpace r) (r # rs))))))"

subsection \<open>\<open>net.ParseMAC\<close>\<close>

text \<open>The value of a hex digit, as the three ranges of \<open>xtoi\<close> read it.\<close>

definition hexVal :: "char \<Rightarrow> nat option" where
  "hexVal c =
     (let n = (of_char c :: nat) in
      if 0x30 \<le> n \<and> n \<le> 0x39 then Some (n - 0x30)
      else if 0x61 \<le> n \<and> n \<le> 0x66 then Some (n - 0x61 + 10)
      else if 0x41 \<le> n \<and> n \<le> 0x46 then Some (n - 0x41 + 10)
      else None)"

text \<open>\<open>xtoi\<close>: number, characters consumed, success.\<close>

fun xtoiLoop :: "nat \<Rightarrow> nat \<Rightarrow> string \<Rightarrow> nat \<times> nat \<times> bool" where
  "xtoiLoop n i [] = (if i = 0 then (0, i, False) else (n, i, True))"
| "xtoiLoop n i (c # cs) =
     (case hexVal c of
        None \<Rightarrow> (if i = 0 then (0, i, False) else (n, i, True))
      | Some d \<Rightarrow>
          (let n' = n * 16 + d
           in if n' \<ge> 0xFFFFFF then (0, i, False) else xtoiLoop n' (i + 1) cs))"

definition xtoi :: "string \<Rightarrow> nat \<times> nat \<times> bool" where
  "xtoi s = xtoiLoop 0 0 s"

text \<open>
  \<open>xtoi2(s, e)\<close>: the byte of the first two hex digits of \<open>s\<close>; when \<open>s\<close> is longer than
  two bytes the third must be \<open>e\<close>. \<open>None\<close> is the result \<open>ok = false\<close>.
\<close>

definition xtoi2 :: "string \<Rightarrow> char \<Rightarrow> byte option" where
  "xtoi2 s e =
     (if length s > 2 \<and> s ! 2 \<noteq> e then None
      else (case xtoi (take 2 s) of
              (n, ei, ok) \<Rightarrow> if ok \<and> ei = 2 then Some (of_nat n) else None))"

text \<open>
  \<open>ParseMAC\<close>: six, eight or twenty bytes written as hex pairs separated by colons or
  by hyphens, or as groups of four hex digits separated by dots. On failure the address
  returned is nil and the error is \<open>AddrError{"invalid MAC address", s}\<close>.
\<close>

definition ParseMAC :: "string \<Rightarrow> byte list \<times> error option" where
  "ParseMAC s =
     (let failure = ([], Some (AddrError ''invalid MAC address'' s)) in
      if length s < 14 then failure
      else if s ! 2 = CHR '':'' \<or> s ! 2 = CHR ''-'' then
        (if (length s + 1) mod 3 \<noteq> 0 then failure
         else
          (let n = (length s + 1) div 3 in
           if n \<noteq> 6 \<and> n \<noteq> 8 \<and> n \<noteq> 20 then failure
           else (case those (map (\<lambda>i. xtoi2 (drop (3 * i) s) (s ! 2)) [0 ..< n]) of
                   None \<Rightarrow> failure
                 | Some hw \<Rightarrow> (hw, None))))
      else if s ! 4 = CHR ''.'' then
        (if (length s + 1) mod 5 \<noteq> 0 then failure
         else
          (let n = 2 * (length s + 1) div 5 in
           if n \<noteq> 6 \<and> n \<noteq> 8 \<and> n \<noteq> 20 then failure
           else (case those (concat (map (\<lambda>k.
                          [xtoi2 (take 2 (drop (5 * k) s)) (CHR 0x00),
                           xtoi2 (drop (5 * k + 2) s) (s ! 4)]) [0 ..< n div 2])) of
                   None \<Rightarrow> failure
                 | Some hw \<Rightarrow> (hw, None))))
      else failure)"

subsection \<open>\<open>net.ParseIP\<close>\<close>

definition isDigit :: "char \<Rightarrow> bool" where
  "isDigit c = (0x30 \<le> (of_char c :: nat) \<and> (of_char c :: nat) \<le> 0x39)"

text \<open>
  The loop of \<open>parseIPv4\<close> in \<open>net/netip\<close>. \<open>prev\<close> is the byte before the current one
  (none at the start), \<open>flds\<close> the octets of the array \<open>fields\<close> stored so far (\<open>pos\<close> is their number).
  \<open>None\<close> stands for every parse error.
\<close>

fun parseIPv4Fields ::
  "char option \<Rightarrow> nat \<Rightarrow> nat \<Rightarrow> byte list \<Rightarrow> string \<Rightarrow> byte list option" where
  "parseIPv4Fields prev val digLen flds [] =
     (if length flds < 3 then None else Some (flds @ [of_nat val]))"
| "parseIPv4Fields prev val digLen flds (c # cs) =
     (if isDigit c then
        (if digLen = 1 \<and> val = 0 then None
         else (let val' = val * 10 + (of_char c - 0x30)
               in if val' > 255 then None
                  else parseIPv4Fields (Some c) val' (digLen + 1) flds cs))
      else if c = CHR ''.'' then
        (if prev = None \<or> cs = [] \<or> prev = Some (CHR ''.'') then None
         else if length flds = 3 then None
         else parseIPv4Fields (Some c) 0 0 (flds @ [of_nat val]) cs)
      else None)"

definition parseIPv4 :: "string \<Rightarrow> byte list option" where
  "parseIPv4 s = parseIPv4Fields None 0 0 [] s"

text \<open>
  The hex group at the head of the rest of an IPv6 address: value, number of digits,
  what follows. More than four digits is an error.
\<close>

fun hexGroup :: "nat \<Rightarrow> nat \<Rightarrow> string \<Rightarrow> (nat \<times> nat \<times> string) option" where
  "hexGroup acc off [] = Some (acc, off, [])"
| "hexGroup acc off (c # cs) =
     (case hexVal c of
        None \<Rightarrow> Some (acc, off, c # cs)
      | Some d \<Rightarrow>
          (let acc' = acc * 16 + d
           in if off > 3 then None
              else if acc' > 0xFFFF then None
              else hexGroup acc' (off + 1) cs))"

text \<open>
  The main loop of \<open>parseIPv6\<close>. \<open>ip\<close> holds the bytes stored so far (\<open>i\<close> is their
  number), \<open>ellipsis\<close> the position of \<open>::\<close> when one was seen. The loop runs while
  \<open>i < 16\<close> and every round stores at least two bytes, so eight rounds are enough; the
  first argument counts them down. The result is the state after the loop.
\<close>

fun parseIPv6Loop ::
  "nat \<Rightarrow> byte list \<Rightarrow> nat option \<Rightarrow> string \<Rightarrow> (byte list \<times> nat option \<times> string) option" where
  "parseIPv6Loop 0 ip ellipsis s = Some (ip, ellipsis, s)"
| "parseIPv6Loop (Suc fuel) ip ellipsis s =
     (if \<not> length ip < 16 then Some (ip, ellipsis, s)
      else
       (case hexGroup 0 0 s of
          None \<Rightarrow> None
        | Some (acc, off, rest) \<Rightarrow>
            if off = 0 then None
            else if rest \<noteq> [] \<and> hd rest = CHR ''.'' then
              (if ellipsis = None \<and> length ip \<noteq> 12 then None
               else if length ip + 4 > 16 then None
               else (case parseIPv4 s of
                       None \<Rightarrow> None
                     | Some ip4 \<Rightarrow> Some (ip @ ip4, ellipsis, [])))
            else
              (let ip = ip @ [of_nat (acc div 256), of_nat acc]
               in if rest = [] then Some (ip, ellipsis, [])
                  else if hd rest \<noteq> CHR '':'' then None
                  else if length rest = 1 then None
                  else
                   (let s = tl rest
                    in if hd s = CHR '':'' then
                         (if ellipsis \<noteq> None then None
                          else if tl s = [] then Some (ip, Some (length ip), [])
                          else parseIPv6Loop fuel ip (Some (length ip)) (tl s))
                       else parseIPv6Loop fuel ip ellipsis s))))"

text \<open>
  \<open>parseIPv6\<close> for an input without a zone. (\<open>ParseIP\<close> rejects every address with a
  zone, and a \<open>%\<close> either starts a zone or is an error, so \<open>ParseIP\<close> below rejects an
  input with \<open>%\<close> before calling this.)
\<close>

definition parseIPv6 :: "string \<Rightarrow> byte list option" where
  "parseIPv6 s0 =
     (let lead = (length s0 \<ge> 2 \<and> s0 ! 0 = CHR '':'' \<and> s0 ! 1 = CHR '':'');
          ellipsis = (if lead then Some 0 else None);
          s = (if lead then drop 2 s0 else s0)
      in if lead \<and> s = [] then Some (replicate 16 0)
         else
          (case parseIPv6Loop 8 [] ellipsis s of
             None \<Rightarrow> None
           | Some (ip, ellipsis, s) \<Rightarrow>
               if s \<noteq> [] then None
               else if length ip < 16 then
                 (case ellipsis of
                    None \<Rightarrow> None
                  | Some e \<Rightarrow> Some (take e ip @ replicate (16 - length ip) 0 @ drop e ip))
               else if ellipsis \<noteq> None then None
               else Some ip))"

text \<open>
  \<open>netip.ParseAddr\<close> looks for the first \<open>.\<close>, \<open>:\<close> or \<open>%\<close> to choose the parser.
\<close>

fun firstSeparator :: "string \<Rightarrow> char option" where
  "firstSeparator [] = None"
| "firstSeparator (c # cs) =
     (if c = CHR ''.'' \<or> c = CHR '':'' \<or> c = CHR ''%'' then Some c else firstSeparator cs)"

text \<open>
  \<open>net.ParseIP\<close>: the 16-byte form of the address (an IPv4 address as an IPv4-mapped
  IPv6 address), or nil.
\<close>

definition ParseIP :: "string \<Rightarrow> byte list" where
  "ParseIP s =
     (case firstSeparator s of
        None \<Rightarrow> []
      | Some c \<Rightarrow>
          if c = CHR ''.'' then
            (case parseIPv4 s of
               None \<Rightarrow> []
             | Some ip4 \<Rightarrow> replicate 10 0 @ [0xff, 0xff] @ ip4)
          else if c = CHR '':'' then
            (if CHR ''%'' \<in> set s then []
             else (case parseIPv6 s of None \<Rightarrow> [] | Some ip \<Rightarrow> ip))
          else [])"

section \<open>Decoding a line\<close>

text \<open>
  \<open>StaticDhcpHost.FromConfig\<close>. The method writes into its receiver and returns the
  error; here it takes the receiver and returns it with the error. The receiver is
  untouched by the two early returns, and all three fields are written otherwise.
\<close>

definition errInvalidDHCPHostConfig :: "string \<Rightarrow> error" where
  "errInvalidDHCPHostConfig config = Errorf (''invalid DHCP host config: '' @ config)"

definition FromConfig :: "StaticDhcpHost \<Rightarrow> string \<Rightarrow> StaticDhcpHost \<times> error option" where
  "FromConfig h config =
     (let tokens = stringsSplit config (CHR '','') in
      if length tokens \<noteq> 3 then (h, Some (errInvalidDHCPHostConfig config))
      else
       (case Sscanf_dhcp_host (tokens ! 0) of
          Inl err \<Rightarrow> (h, errorsJoin [Some (errInvalidDHCPHostConfig config), Some err])
        | Inr mac \<Rightarrow>
            (let (hw, err) = ParseMAC mac;
                 h = h\<lparr>MacAddress := hw\<rparr>;
                 h = h\<lparr>IPAddress := ParseIP (tokens ! 1)\<rparr>;
                 err = (if IPAddress h = []
                        then errorsJoin [err, Some (AddrError ''invalid IP address'' (tokens ! 1))]
                        else err);
                 h = h\<lparr>HostName := tokens ! 2\<rparr>
             in (h, err))))"

text \<open>\<open>StaticDhcpHost.Equal\<close>: \<open>bytes.Equal\<close> on both addresses, \<open>==\<close> on the names.\<close>

definition Equal :: "StaticDhcpHost \<Rightarrow> StaticDhcpHost \<Rightarrow> bool" where
  "Equal h other \<longleftrightarrow>
     MacAddress h = MacAddress other \<and> IPAddress h = IPAddress other
     \<and> HostName h = HostName other"

text \<open>The entry \<open>ValidHost\<close> of the tests; \<open>net.ParseIP\<close> gives the 16-byte form.\<close>

definition ValidHost :: StaticDhcpHost where
  "ValidHost = \<lparr>MacAddress = [0x02, 0x04, 0x06, 0xaa, 0xbb, 0xcc],
                 IPAddress = replicate 10 0 @ [0xff, 0xff, 1, 1, 1, 1],
                 HostName = ''Foo''\<rparr>"

section \<open>Reading the file\<close>

text \<open>
  \<open>bufio.ScanLines\<close>: the text before each newline is a line, and what follows the last
  newline is a line when it is not empty. \<open>cur\<close> holds the bytes of the line being read.
\<close>

fun rawLines :: "string \<Rightarrow> string \<Rightarrow> string list" where
  "rawLines cur [] = (if cur = [] then [] else [cur])"
| "rawLines cur (c # cs) =
     (if c = CHR 0x0A then cur # rawLines [] cs else rawLines (cur @ [c]) cs)"

text \<open>\<open>dropCR\<close>: one carriage return at the end of a line is dropped.\<close>

definition dropCR :: "string \<Rightarrow> string" where
  "dropCR l = (if l \<noteq> [] \<and> last l = CHR 0x0D then butlast l else l)"

text \<open>
  \<open>bufio.MaxScanTokenSize\<close>, the size the buffer of a \<open>bufio.Scanner\<close> may grow to. A
  line that does not fit (65536 bytes or more before its newline or the end of the
  file) makes \<open>Scan\<close> return false with \<open>ErrTooLong\<close>: the scan stops there.
\<close>

definition MaxScanTokenSize :: nat where
  "MaxScanTokenSize = 64 * 1024"

text \<open>The values \<open>scanner.Text()\<close> takes in the loop \<open>for scanner.Scan()\<close>.\<close>

definition scanLines :: "string \<Rightarrow> string list" where
  "scanLines input =
     map dropCR (takeWhile (\<lambda>l. length l < MaxScanTokenSize) (rawLines [] input))"

text \<open>
  The loop of \<open>hostRepository.parse\<close>: a line without the prefix is skipped, a line with
  the prefix is decoded into a fresh entry; the first decoding error ends the loop with
  a nil list and that error. The error of the scanner is not looked at after the loop.
\<close>

fun parseLines :: "string list \<Rightarrow> StaticDhcpHost list \<Rightarrow> StaticDhcpHost list \<times> error option"
  where
  "parseLines [] hosts = (hosts, None)"
| "parseLines (l # ls) hosts =
     (if \<not> prefix ''dhcp-host='' l then parseLines ls hosts
      else (case FromConfig emptyHost l of
              (host, Some err) \<Rightarrow> ([], Some err)
            | (host, None) \<Rightarrow> parseLines ls (hosts @ [host])))"

text \<open>\<open>hostRepository.parse\<close> on the bytes of the open file.\<close>

definition parse :: "string \<Rightarrow> StaticDhcpHost list \<times> error option" where
  "parse input = parseLines (scanLines input) []"

text \<open>The file \<open>InvalidHostsFileContent\<close> of the tests.\<close>

definition InvalidHostsFileContent :: string where
  "InvalidHostsFileContent = ''dhcp-host=ab:cd:ef:gh:ij:kl,1.1.1.1,Jung''"

section \<open>The repository interface and the service\<close>

text \<open>
  The Go interface \<open>Repository\<close> that the service calls, as a record of operations
  over a state \<open>'s\<close> (the file, for the real repository; the expectations, for the mock
  of the tests). A Go result \<open>(*StaticDhcpHost, error)\<close> is a pair of options, nil being
  \<open>None\<close>.
\<close>

record 's Repository =
  FindAll :: "'s \<Rightarrow> (StaticDhcpHost list option \<times> error option) \<times> 's"
  Find :: "StaticDhcpHost \<Rightarrow> 's \<Rightarrow> (StaticDhcpHost option \<times> error option) \<times> 's"
  FindByMac :: "byte list \<Rightarrow> 's \<Rightarrow> (StaticDhcpHost option \<times> error option) \<times> 's"
  FindByIP :: "byte list \<Rightarrow> 's \<Rightarrow> (StaticDhcpHost option \<times> error option) \<times> 's"
  Delete :: "StaticDhcpHost \<Rightarrow> 's \<Rightarrow> (StaticDhcpHost option \<times> error option) \<times> 's"
  DeleteByMac :: "byte list \<Rightarrow> 's \<Rightarrow> (StaticDhcpHost option \<times> error option) \<times> 's"
  DeleteByIP :: "byte list \<Rightarrow> 's \<Rightarrow> (StaticDhcpHost option \<times> error option) \<times> 's"
  Save :: "StaticDhcpHost \<Rightarrow> 's \<Rightarrow> error option \<times> 's"

text \<open>\<open>service.Insert\<close>: the error returned and the state the repository is left in.\<close>

definition Insert :: "'s Repository \<Rightarrow> StaticDhcpHost \<Rightarrow> 's \<Rightarrow> error option \<times> 's" where
  "Insert r host s =
     (case FindByMac r (MacAddress host) s of
        ((sameMacHost, err), s) \<Rightarrow>
          if err \<noteq> None then (err, s)
          else if sameMacHost \<noteq> None then (Some (Errorf ''Duplicated MAC address''), s)
          else
           (case FindByIP r (IPAddress host) s of
              ((sameIPHost, err), s) \<Rightarrow>
                if err \<noteq> None then (err, s)
                else if sameIPHost \<noteq> None then (Some (Errorf ''Duplicated IP address''), s)
                else Save r host s))"

text \<open>\<open>service.Update\<close>.\<close>

definition Update :: "'s Repository \<Rightarrow> StaticDhcpHost \<Rightarrow> 's \<Rightarrow> error option \<times> 's" where
  "Update r host s =
     (case DeleteByMac r (MacAddress host) s of
        ((_, err), s) \<Rightarrow>
          if err \<noteq> None then (err, s)
          else
           (case DeleteByIP r (IPAddress host) s of
              ((_, err), s) \<Rightarrow>
                if err \<noteq> None then (err, s)
                else Save r host s))"

section \<open>The repository on a file\<close>

text \<open>
  The file behind the repository: its bytes when it exists, and whether it may be
  written.
\<close>

record fileState =
  content :: "string option"
  writable :: bool

text \<open>
  Modelled from the spec: the repository on the file (\<open>FindAll\<close>, \<open>Find\<close>,
  \<open>FindByMac\<close>, \<open>FindByIP\<close>, \<open>Save\<close>, \<open>Delete\<close>, \<open>DeleteByMac\<close>, \<open>DeleteByIP\<close>) has
  its tests at hand but not its code. The spec, section 4.2: every operation reads the
  whole file, and a file that cannot be opened is a "not found" failure; the read path
  is that of \<open>parse\<close> above; a lookup is \<open>FindAll\<close> and a linear scan for the first
  match, an absent entry being no error; a mutation reads the file into a list (a
  failure aborts with no write), computes the new list (\<open>Save\<close> appends, \<open>Delete*\<close>
  removes the first match), serialises it as newline-joined lines and writes once; a
  write that fails leaves the bytes as they were; \<open>Delete*\<close> without a match returns
  no entry and no error and writes nothing.
\<close>

definition repoFindAll ::
  "fileState \<Rightarrow> (StaticDhcpHost list option \<times> error option) \<times> fileState" where
  "repoFindAll fs =
     (case content fs of
        None \<Rightarrow> ((None, Some ErrNotExist), fs)
      | Some c \<Rightarrow>
          (case parse c of
             (hosts, None) \<Rightarrow> ((Some hosts, None), fs)
           | (hosts, Some err) \<Rightarrow> ((None, Some err), fs)))"

text \<open>Modelled from the spec: a lookup is a read and a scan for the first match.\<close>

definition repoFindWhere ::
  "(StaticDhcpHost \<Rightarrow> bool) \<Rightarrow> fileState \<Rightarrow>
     (StaticDhcpHost option \<times> error option) \<times> fileState" where
  "repoFindWhere p fs =
     (case repoFindAll fs of
        ((Some hosts, None), fs) \<Rightarrow> ((List.find p hosts, None), fs)
      | ((_, err), fs) \<Rightarrow> ((None, err), fs))"

text \<open>
  Modelled from the spec: the list is serialised as the encoded lines joined by
  newlines; an entry that does not encode is an error of the codec, passed on.
\<close>

fun encodeAll :: "StaticDhcpHost list \<Rightarrow> string list \<times> error option" where
  "encodeAll [] = ([], None)"
| "encodeAll (h # hs) =
     (case ToConfig h of
        (line, Some err) \<Rightarrow> ([], Some err)
      | (line, None) \<Rightarrow>
          (case encodeAll hs of
             (ls, Some err) \<Rightarrow> ([], Some err)
           | (ls, None) \<Rightarrow> (line # ls, None)))"

text \<open>
  Modelled from the spec: the single write of a mutation; a missing file and a file
  that may not be written are failures that leave the state as it was.
\<close>

definition writeHosts :: "StaticDhcpHost list \<Rightarrow> fileState \<Rightarrow> error option \<times> fileState" where
  "writeHosts hosts fs =
     (case encodeAll hosts of
        (ls, Some err) \<Rightarrow> (Some err, fs)
      | (ls, None) \<Rightarrow>
          if content fs = None then (Some ErrNotExist, fs)
          else if \<not> writable fs then (Some ErrPermission, fs)
          else (None, fs\<lparr>content := Some (stringsJoin ls [CHR 0x0A])\<rparr>))"

text \<open>Modelled from the spec: \<open>Save\<close> reads, appends the entry, writes.\<close>

definition repoSave :: "StaticDhcpHost \<Rightarrow> fileState \<Rightarrow> error option \<times> fileState" where
  "repoSave host fs =
     (case repoFindAll fs of
        ((Some hosts, None), fs) \<Rightarrow> writeHosts (hosts @ [host]) fs
      | ((_, err), fs) \<Rightarrow> (err, fs))"

text \<open>The list without its first element that satisfies \<open>p\<close>.\<close>

fun removeFirst :: "('a \<Rightarrow> bool) \<Rightarrow> 'a list \<Rightarrow> 'a list" where
  "removeFirst p [] = []"
| "removeFirst p (x # xs) = (if p x then xs else x # removeFirst p xs)"

text \<open>
  Modelled from the spec: \<open>Delete*\<close> reads, looks for the first match, and either
  returns "no entry, no error" without writing, or writes the list without that entry
  and returns the entry.
\<close>

definition repoDeleteWhere ::
  "(StaticDhcpHost \<Rightarrow> bool) \<Rightarrow> fileState \<Rightarrow>
     (StaticDhcpHost option \<times> error option) \<times> fileState" where
  "repoDeleteWhere p fs =
     (case repoFindAll fs of
        ((Some hosts, None), fs) \<Rightarrow>
          (case List.find p hosts of
             None \<Rightarrow> ((None, None), fs)
           | Some found \<Rightarrow>
               (case writeHosts (removeFirst p hosts) fs of
                  (Some err, fs) \<Rightarrow> ((None, Some err), fs)
                | (None, fs) \<Rightarrow> ((Some found, None), fs)))
      | ((_, err), fs) \<Rightarrow> ((None, err), fs))"

text \<open>
  Modelled from the spec: the three keys of a lookup or a deletion are the full record
  (\<open>Equal\<close>), the MAC address and the IP address, the addresses compared byte by byte.
\<close>

definition fileRepository :: "fileState Repository" where
  "fileRepository =
     \<lparr>FindAll = repoFindAll,
      Find = (\<lambda>host. repoFindWhere (\<lambda>h. Equal h host)),
      FindByMac = (\<lambda>mac. repoFindWhere (\<lambda>h. MacAddress h = mac)),
      FindByIP = (\<lambda>ip. repoFindWhere (\<lambda>h. IPAddress h = ip)),
      Delete = (\<lambda>host. repoDeleteWhere (\<lambda>h. Equal h host)),
      DeleteByMac = (\<lambda>mac. repoDeleteWhere (\<lambda>h. MacAddress h = mac)),
      DeleteByIP = (\<lambda>ip. repoDeleteWhere (\<lambda>h. IPAddress h = ip)),
      Save = repoSave\<rparr>"

text \<open>The files of the tests.\<close>

definition ValidHostFileContent :: string where
  "ValidHostFileContent = ''dhcp-host=02:04:06:aa:bb:cc,1.1.1.1,Foo''"

definition UnknownHost :: StaticDhcpHost where
  "UnknownHost = \<lparr>MacAddress = [0x02, 0x04, 0x06, 0xaa, 0xbb, 0xff],
                   IPAddress = replicate 10 0 @ [0xff, 0xff, 9, 9, 9, 9],
                   HostName = ''Unknown''\<rparr>"

text \<open>
  The entries of the data model (spec, section 3) that the file holds as they are: a
  6-byte MAC address, an IPv4 address in the 16-byte form of \<open>net.ParseIP\<close>, and a
  hostname that is not empty, holds no comma and no newline, does not end with a
  carriage return and is no longer than the 253 bytes of a host name.
\<close>

definition validEntry :: "StaticDhcpHost \<Rightarrow> bool" where
  "validEntry h \<longleftrightarrow>
     length (MacAddress h) = 6 \<and> length (IPAddress h) = 16 \<and> length (To4 (IPAddress h)) = 4
     \<and> HostName h \<noteq> [] \<and> CHR '','' \<notin> set (HostName h) \<and> CHR 0x0A \<notin> set (HostName h)
     \<and> last (HostName h) \<noteq> CHR 0x0D \<and> length (HostName h) \<le> 253"

section \<open>Properties of the textual forms\<close>

lemma unat_byte: "unat (b::byte) < 256"
  using unsigned_less[of b, where 'a=nat] by simp

lemma hexDigit_cases: "n < 16 \<Longrightarrow> hexDigit n \<in> set ''0123456789abcdef''"
  unfolding hexDigit_def by (rule nth_mem) simp

lemma hexDigit_not_lt: "n < 16 \<Longrightarrow> hexDigit n \<noteq> CHR ''<''"
  using hexDigit_cases[of n] by auto

lemma HardwareAddrString_empty: "HardwareAddrString a = [] \<longleftrightarrow> a = []"
  by (cases a rule: hwBytes.cases) (simp_all add: HardwareAddrString_def)

lemma appendDecimal_hd: "x < 256 \<Longrightarrow> \<exists>n cs. n < 16 \<and> appendDecimal x = hexDigit n # cs"
  unfolding appendDecimal_def
  by (cases "x \<ge> 100"; cases "x \<ge> 10")
     (auto intro: exI[of _ "x div 100"] exI[of _ "x div 10 mod 10"] exI[of _ "x mod 10"])

lemma appendHex_hd: "x < 65536 \<Longrightarrow> \<exists>n cs. n < 16 \<and> appendHex x = hexDigit n # cs"
  unfolding appendHex_def
  by (cases "x \<ge> 0x1000"; cases "x \<ge> 0x100"; cases "x \<ge> 0x10")
     (auto intro: exI[of _ "x div 0x1000"] exI[of _ "x div 0x100 mod 16"]
        exI[of _ "x div 16 mod 16"] exI[of _ "x mod 16"])

lemma v6u16_bound: "g \<in> set (v6u16 bs) \<Longrightarrow> g < 65536"
proof (induction bs rule: v6u16.induct)
  case (1 hi lo rest)
  have "unat hi < 256" "unat lo < 256" by (rule unat_byte)+
  then have "unat hi * 256 + unat lo < 65536" by arith
  with 1 show ?case by auto
qed simp_all

lemma v6u16_length: "length (v6u16 bs) = length bs div 2"
  by (induction bs rule: v6u16.induct) simp_all

lemma length4E:
  assumes "length p = 4"
  obtains a b c d where "p = [a, b, c, d]"
  using assms
  by (cases p; simp; cases "tl p"; simp; cases "tl (tl p)"; simp; cases "tl (tl (tl p))"; simp)

lemma string4_not_nil: "length p = 4 \<Longrightarrow> string4 p \<noteq> ''<nil>''"
proof -
  assume "length p = 4"
  then obtain a b c d where p: "p = [a, b, c, d]" by (rule length4E)
  from appendDecimal_hd[OF unat_byte[of a]]
  obtain n cs where "n < 16" "appendDecimal (unat a) = hexDigit n # cs" by blast
  then show ?thesis using hexDigit_not_lt[of n] by (simp add: p string4_def)
qed

lemma string6_not_nil: "length ip = 16 \<Longrightarrow> string6 ip \<noteq> ''<nil>''"
proof -
  assume l: "length ip = 16"
  define gs where "gs = v6u16 ip"
  have lg: "length gs = 8" using l by (simp add: gs_def v6u16_length)
  then have "gs ! 0 \<in> set gs" by (intro nth_mem) simp
  then have "gs ! 0 < 65536" using v6u16_bound gs_def by blast
  from appendHex_hd[OF this]
  obtain n cs where n: "n < 16" "appendHex (gs ! 0) = hexDigit n # cs" by blast
  have "appendTo6 gs zs ze 0 8 \<noteq> ''<nil>''" for zs ze
    using n hexDigit_not_lt[of n] by (simp add: eval_nat_numeral)
  then show ?thesis by (simp add: string6_def Let_def gs_def)
qed

text \<open>Only the empty address prints as \<open><nil>\<close>, so \<open>check\<close> tests emptiness.\<close>

lemma IPString_nil: "IPString ip = ''<nil>'' \<longleftrightarrow> ip = []"
  using string4_not_nil[of "To4 ip"] string6_not_nil[of ip]
  by (auto simp: IPString_def To4_def)

lemma check_None:
  "check h = None \<longleftrightarrow> MacAddress h \<noteq> [] \<and> IPAddress h \<noteq> [] \<and> HostName h \<noteq> []"
  by (simp add: check_def errorsJoin_def List.map_filter_def HardwareAddrString_empty
      IPString_nil)

section \<open>Properties of the library functions\<close>

lemma stringsSplit_not_Nil: "stringsSplit s sep \<noteq> []"
  by (induction s) (auto split: list.splits)

lemma stringsSplit_nosep: "sep \<notin> set a \<Longrightarrow> stringsSplit a sep = [a]"
  by (induction a) auto

lemma stringsSplit_append:
  "sep \<notin> set a \<Longrightarrow> stringsSplit (a @ sep # b) sep = a # stringsSplit b sep"
  by (induction a) (auto split: list.splits)

lemma decodeRune_ascii: "(of_char c :: nat) < 0x80 \<Longrightarrow> decodeRune (c # cs) = (of_char c, 1)"
  by (simp add: decodeRune_def)

lemma decodeRunes_ascii:
  "\<forall>c \<in> set s. (of_char c :: nat) < 0x80 \<Longrightarrow> decodeRunes 0 s = map of_char s"
  by (induction s) (simp_all add: decodeRune_ascii)

lemma encodeRune_ascii: "(of_char c :: nat) < 0x80 \<Longrightarrow> encodeRune (of_char c) = [c]"
  by (simp add: encodeRune_def)

lemma encodeRunes_ascii:
  "\<forall>c \<in> set s. (of_char c :: nat) < 0x80 \<Longrightarrow> concat (map encodeRune (map of_char s)) = s"
  by (induction s) (simp_all add: encodeRune_ascii)

lemma advance_prefix:
  "advance (map of_char ''dhcp-host='') (map of_char ''dhcp-host='' @ rs) = Inr rs"
  by simp

lemma Sscanf_dhcp_host_word:
  assumes "w \<noteq> []"
    and "\<forall>c \<in> set w. (of_char c :: nat) < 0x80 \<and> \<not> isSpace (of_char c)"
  shows "Sscanf_dhcp_host (''dhcp-host='' @ w) = Inr w"
proof -
  have asc: "\<forall>c \<in> set (''dhcp-host='' @ w). (of_char c :: nat) < 0x80"
    using assms(2) by auto
  have dr: "decodeRunes 0 (''dhcp-host='' @ w) = map of_char ''dhcp-host='' @ map of_char w"
    using decodeRunes_ascii[OF asc] by simp
  obtain c cs where w: "w = c # cs" using assms(1) by (cases w) auto
  have nsp: "\<not> isSpace (of_char c)" using assms(2) w by simp
  then have nl: "(of_char c :: nat) \<noteq> 0x0A" "(of_char c :: nat) \<noteq> 0x0D"
    by (auto simp: isSpace_def)
  have sk: "SkipSpace (map of_char w) = Inr (map of_char w)"
    using nsp nl by (simp add: w)
  have tw: "takeWhile (\<lambda>r. \<not> isSpace r) (map of_char w) = map of_char w"
    using assms(2) by (simp add: takeWhile_eq_all_conv)
  have "concat (map encodeRune (map of_char w)) = w"
    using assms(2) by (intro encodeRunes_ascii) simp
  then show ?thesis
    unfolding Sscanf_dhcp_host_def dr advance_prefix
    using sk tw by (simp add: w)
qed

lemma lt16_cases: "n < 16 \<Longrightarrow> n \<in> set [0 ..< 16]" by simp

lemma hexDigit_props:
  assumes "n < 16"
  shows "hexVal (hexDigit n) = Some n"
    and "(of_char (hexDigit n) :: nat) < 0x80"
    and "\<not> isSpace (of_char (hexDigit n))"
    and "hexDigit n \<notin> {CHR '','', CHR ''.'', CHR '':'', CHR ''%'', CHR 0x0A, CHR 0x0D}"
  using lt16_cases[OF assms] 
  by (auto simp: upt_conv_Cons hexDigit_def hexVal_def isSpace_def)

lemma decDigit_props:
  assumes "n < 10"
  shows "isDigit (hexDigit n)" and "(of_char (hexDigit n) :: nat) - 0x30 = n"
proof -
  have "n \<in> set [0 ..< 10]" using assms by simp
  then show "isDigit (hexDigit n)" "(of_char (hexDigit n) :: nat) - 0x30 = n"
    by (auto simp: upt_conv_Cons hexDigit_def isDigit_def)
qed

lemma byte_nibbles: "of_nat (unat b div 16 * 16 + unat b mod 16) = (b::byte)"
  by simp

lemma xtoi_pair:
  assumes "hi < 16" "lo < 16"
  shows "xtoi [hexDigit hi, hexDigit lo] = (hi * 16 + lo, 2, True)"
  using assms by (simp add: xtoi_def hexDigit_props(1))

lemma xtoi2_byte_end: "xtoi2 [hexDigit (unat (b::byte) div 16), hexDigit (unat b mod 16)] e = Some b"
proof -
  have "unat b div 16 < 16" using unat_byte[of b] by simp
  moreover have "unat b mod 16 < 16" by simp
  ultimately show ?thesis by (simp add: xtoi2_def xtoi_pair)
qed

lemma xtoi2_byte_sep:
  "xtoi2 (hexDigit (unat (b::byte) div 16) # hexDigit (unat b mod 16) # e # rest) e = Some b"
proof -
  have "unat b div 16 < 16" using unat_byte[of b] by simp
  moreover have "unat b mod 16 < 16" by simp
  ultimately show ?thesis by (simp add: xtoi2_def xtoi_pair)
qed

lemma length6E:
  assumes "length p = 6"
  obtains a b c d e f where "p = [a, b, c, d, e, f]"
proof -
  from assms obtain a p1 where 1: "p = a # p1" "length p1 = 5" by (cases p) auto
  then obtain b p2 where 2: "p1 = b # p2" "length p2 = 4" by (cases p1) auto
  then obtain c p3 where 3: "p2 = c # p3" "length p3 = 3" by (cases p2) auto
  then obtain d p4 where 4: "p3 = d # p4" "length p4 = 2" by (cases p3) auto
  then obtain e p5 where 5: "p4 = e # p5" "length p5 = 1" by (cases p4) auto
  then obtain f where 6: "p5 = [f]" by (cases p5) auto
  show ?thesis using that 1 2 3 4 5 6 by simp
qed

lemma ParseMAC_HardwareAddrString:
  assumes "length mac = 6"
  shows "ParseMAC (HardwareAddrString mac) = (mac, None)"
proof -
  from assms obtain a b c d e f where m: "mac = [a, b, c, d, e, f]" by (rule length6E)
  show ?thesis
    unfolding m
    by (simp add: ParseMAC_def HardwareAddrString_def Let_def upt_conv_Cons
        xtoi2_byte_sep xtoi2_byte_end)
qed

lemma isDigit_not_dot: "isDigit c \<Longrightarrow> c \<noteq> CHR ''.''"
  by (auto simp: isDigit_def)

lemma parseIPv4Fields_digit:
  assumes "d < 10" "\<not> (digLen = 1 \<and> val = 0)" "val * 10 + d \<le> 255"
  shows "parseIPv4Fields prev val digLen flds (hexDigit d # cs)
         = parseIPv4Fields (Some (hexDigit d)) (val * 10 + d) (digLen + 1) flds cs"
  using assms decDigit_props[OF assms(1)] by (auto simp: Let_def)

lemma parseIPv4Fields_appendDecimal:
  assumes "x < 256"
  shows "\<exists>c k. isDigit c \<and>
           parseIPv4Fields prev 0 0 flds (appendDecimal x @ rest)
           = parseIPv4Fields (Some c) x k flds rest"
proof -
  consider "x < 10" | "10 \<le> x" "x < 100" | "100 \<le> x" by linarith
  then show ?thesis
  proof cases
    case 1
    have ad: "appendDecimal x @ rest = hexDigit x # rest"
      using 1 by (simp add: appendDecimal_def)
    have s1: "parseIPv4Fields prev 0 0 flds (hexDigit x # rest)
        = parseIPv4Fields (Some (hexDigit x)) (0 * 10 + x) (0 + 1) flds rest"
      by (rule parseIPv4Fields_digit) (use 1 in auto)
    have "isDigit (hexDigit x) \<and> parseIPv4Fields prev 0 0 flds (appendDecimal x @ rest)
        = parseIPv4Fields (Some (hexDigit x)) x (0 + 1) flds rest"
      using decDigit_props(1)[OF 1] by (simp only: ad s1) simp
    then show ?thesis by blast
  next
    case 2
    let ?d1 = "x div 10" and ?d0 = "x mod 10"
    have d: "?d1 < 10" "?d0 < 10" "?d1 \<noteq> 0" using 2 by auto
    have v: "(0 * 10 + ?d1) * 10 + ?d0 = x" by simp
    have ad: "appendDecimal x @ rest = hexDigit ?d1 # hexDigit ?d0 # rest"
      using 2 by (simp add: appendDecimal_def)
    have s1: "parseIPv4Fields prev 0 0 flds (hexDigit ?d1 # hexDigit ?d0 # rest)
        = parseIPv4Fields (Some (hexDigit ?d1)) (0 * 10 + ?d1) (0 + 1) flds (hexDigit ?d0 # rest)"
      by (rule parseIPv4Fields_digit) (use d in auto)
    have s2: "parseIPv4Fields (Some (hexDigit ?d1)) (0 * 10 + ?d1) (0 + 1) flds (hexDigit ?d0 # rest)
        = parseIPv4Fields (Some (hexDigit ?d0)) ((0 * 10 + ?d1) * 10 + ?d0) (0 + 1 + 1) flds rest"
      by (rule parseIPv4Fields_digit) (use d assms in auto)
    have "isDigit (hexDigit ?d0) \<and> parseIPv4Fields prev 0 0 flds (appendDecimal x @ rest)
        = parseIPv4Fields (Some (hexDigit ?d0)) x (0 + 1 + 1) flds rest"
      using decDigit_props(1)[OF d(2)] by (simp only: ad s1 s2 v simp_thms)
    then show ?thesis by blast
  next
    case 3
    let ?d2 = "x div 100" and ?d1 = "x div 10 mod 10" and ?d0 = "x mod 10"
    have d: "?d2 < 10" "?d1 < 10" "?d0 < 10" "?d2 \<noteq> 0"
      using 3 assms by auto
    have v1: "x div 100 = x div 10 div 10" by (simp add: div_mult2_eq)
    have v2: "x div 10 div 10 * 10 + x div 10 mod 10 = x div 10" by simp
    have v: "((0 * 10 + ?d2) * 10 + ?d1) * 10 + ?d0 = x"
      by (simp only: v1 v2 mult_0 add_0) simp
    have le: "(0 * 10 + ?d2) * 10 + ?d1 \<le> 255" using assms by simp
    have ad: "appendDecimal x @ rest = hexDigit ?d2 # hexDigit ?d1 # hexDigit ?d0 # rest"
      using 3 by (simp add: appendDecimal_def)
    have s1: "parseIPv4Fields prev 0 0 flds (hexDigit ?d2 # hexDigit ?d1 # hexDigit ?d0 # rest)
        = parseIPv4Fields (Some (hexDigit ?d2)) (0 * 10 + ?d2) (0 + 1) flds
            (hexDigit ?d1 # hexDigit ?d0 # rest)"
      by (rule parseIPv4Fields_digit) (use d in auto)
    have s2: "parseIPv4Fields (Some (hexDigit ?d2)) (0 * 10 + ?d2) (0 + 1) flds
            (hexDigit ?d1 # hexDigit ?d0 # rest)
        = parseIPv4Fields (Some (hexDigit ?d1)) ((0 * 10 + ?d2) * 10 + ?d1) (0 + 1 + 1) flds
            (hexDigit ?d0 # rest)"
      by (rule parseIPv4Fields_digit) (use d le in auto)
    have s3: "parseIPv4Fields (Some (hexDigit ?d1)) ((0 * 10 + ?d2) * 10 + ?d1) (0 + 1 + 1) flds
            (hexDigit ?d0 # rest)
        = parseIPv4Fields (Some (hexDigit ?d0)) (((0 * 10 + ?d2) * 10 + ?d1) * 10 + ?d0)
            (0 + 1 + 1 + 1) flds rest"
      by (rule parseIPv4Fields_digit) (use d assms v in auto)
    have "isDigit (hexDigit ?d0) \<and> parseIPv4Fields prev 0 0 flds (appendDecimal x @ rest)
        = parseIPv4Fields (Some (hexDigit ?d0)) x (0 + 1 + 1 + 1) flds rest"
      using decDigit_props(1)[OF d(3)] by (simp only: ad s1 s2 s3 v simp_thms)
    then show ?thesis by blast
  qed
qed

lemma appendDecimal_chars:
  assumes "x < 256" "c \<in> set (appendDecimal x)"
  shows "isDigit c"
proof -
  have "x div 100 < 10" "x div 10 mod 10 < 10" "x mod 10 < 10" using assms(1) by auto
  then show ?thesis
    using assms(2) decDigit_props(1) by (auto simp: appendDecimal_def split: if_splits)
qed

lemma appendDecimal_not_Nil: "appendDecimal x \<noteq> []"
  by (simp add: appendDecimal_def)

lemma parseIPv4Fields_octet_dot:
  assumes "x < 256" "length flds < 3" "rest \<noteq> []"
  shows "parseIPv4Fields (Some (CHR ''.'')) 0 0 flds (appendDecimal x @ CHR ''.'' # rest)
         = parseIPv4Fields (Some (CHR ''.'')) 0 0 (flds @ [of_nat x]) rest"
    and "parseIPv4Fields None 0 0 flds (appendDecimal x @ CHR ''.'' # rest)
         = parseIPv4Fields (Some (CHR ''.'')) 0 0 (flds @ [of_nat x]) rest"
proof -
  have *: "parseIPv4Fields prev 0 0 flds (appendDecimal x @ CHR ''.'' # rest)
         = parseIPv4Fields (Some (CHR ''.'')) 0 0 (flds @ [of_nat x]) rest" for prev
  proof -
    from parseIPv4Fields_appendDecimal[OF assms(1), of prev flds "CHR ''.'' # rest"]
    obtain c k where c: "isDigit c"
      "parseIPv4Fields prev 0 0 flds (appendDecimal x @ CHR ''.'' # rest)
         = parseIPv4Fields (Some c) x k flds (CHR ''.'' # rest)" by blast
    have "\<not> isDigit (CHR ''.'')" by (simp add: isDigit_def)
    then show ?thesis
      using c isDigit_not_dot[OF c(1)] assms(2,3) by simp
  qed
  show "parseIPv4Fields (Some (CHR ''.'')) 0 0 flds (appendDecimal x @ CHR ''.'' # rest)
         = parseIPv4Fields (Some (CHR ''.'')) 0 0 (flds @ [of_nat x]) rest" by (rule *)
  show "parseIPv4Fields None 0 0 flds (appendDecimal x @ CHR ''.'' # rest)
         = parseIPv4Fields (Some (CHR ''.'')) 0 0 (flds @ [of_nat x]) rest" by (rule *)
qed

lemma parseIPv4Fields_last_octet:
  assumes "x < 256" "length flds = 3"
  shows "parseIPv4Fields (Some (CHR ''.'')) 0 0 flds (appendDecimal x) = Some (flds @ [of_nat x])"
proof -
  from parseIPv4Fields_appendDecimal[OF assms(1), of "Some (CHR ''.'')" flds "[]"]
  obtain c k where
    "parseIPv4Fields (Some (CHR ''.'')) 0 0 flds (appendDecimal x) = parseIPv4Fields (Some c) x k flds []"
    by auto
  then show ?thesis using assms(2) by simp
qed

lemma parseIPv4_string4:
  "parseIPv4 (string4 [a, b, c, d]) = Some [a, b, c, d]"
proof -
  have s: "string4 [a, b, c, d] = appendDecimal (unat a) @ CHR ''.'' #
       (appendDecimal (unat b) @ CHR ''.'' # (appendDecimal (unat c) @ CHR ''.'' #
          appendDecimal (unat d)))"
    by (simp add: string4_def)
  show ?thesis
    unfolding parseIPv4_def s
    by (simp add: parseIPv4Fields_octet_dot parseIPv4Fields_last_octet unat_byte
        appendDecimal_not_Nil)
qed

lemma firstSeparator_skip:
  "\<forall>c \<in> set xs. isDigit c \<Longrightarrow> firstSeparator (xs @ CHR ''.'' # rest) = Some (CHR ''.'')"
  by (induction xs) (auto simp: isDigit_def)

lemma ParseIP_string4:
  "ParseIP (string4 [a, b, c, d]) = replicate 10 0 @ [0xff, 0xff] @ [a, b, c, d]"
proof -
  have s: "string4 [a, b, c, d] = appendDecimal (unat a) @ CHR ''.'' #
       (appendDecimal (unat b) @ CHR ''.'' # (appendDecimal (unat c) @ CHR ''.'' #
          appendDecimal (unat d)))"
    by (simp add: string4_def)
  have "firstSeparator (string4 [a, b, c, d]) = Some (CHR ''.'')"
    unfolding s using appendDecimal_chars[OF unat_byte[of a]]
    by (intro firstSeparator_skip) blast
  then show ?thesis by (simp add: ParseIP_def parseIPv4_string4)
qed

section \<open>Encoding then decoding\<close>

lemma hwBytes_chars:
  "c \<in> set (hwBytes m) \<Longrightarrow> c = CHR '':'' \<or> c \<in> hexDigit ` {..< 16}"
proof (induction m rule: hwBytes.induct)
  case (2 b)
  have "unat b div 16 < 16" using unat_byte[of b] by simp
  then have "hexDigit (unat b div 16) \<in> hexDigit ` {..< 16}" by blast
  moreover have "hexDigit (unat b mod 16) \<in> hexDigit ` {..< 16}" by (rule imageI) simp
  ultimately show ?case using 2 by auto
next
  case (3 b c' cs)
  have "unat b div 16 < 16" using unat_byte[of b] by simp
  then have "hexDigit (unat b div 16) \<in> hexDigit ` {..< 16}" by blast
  moreover have "hexDigit (unat b mod 16) \<in> hexDigit ` {..< 16}" by (rule imageI) simp
  ultimately show ?case using 3 by auto
qed simp

lemma hwBytes_ascii_word:
  assumes "c \<in> set (hwBytes m)"
  shows "(of_char c :: nat) < 0x80 \<and> \<not> isSpace (of_char c)" and "c \<noteq> CHR '',''"
proof -
  from hwBytes_chars[OF assms] consider "c = CHR '':''" | n where "n < 16" "c = hexDigit n"
    by auto
  then have "((of_char c :: nat) < 0x80 \<and> \<not> isSpace (of_char c)) \<and> c \<noteq> CHR '',''"
  proof cases
    case 1
    then show ?thesis by (simp add: isSpace_def)
  next
    case 2
    then show ?thesis using hexDigit_props[OF 2(1)] by simp
  qed
  then show "(of_char c :: nat) < 0x80 \<and> \<not> isSpace (of_char c)" and "c \<noteq> CHR '',''"
    by simp_all
qed

lemma appendDecimal_no_comma: "x < 256 \<Longrightarrow> CHR '','' \<notin> set (appendDecimal x)"
  using appendDecimal_chars[of x "CHR '',''"] by (auto simp: isDigit_def)

lemma string4_no_comma:
  assumes "length p = 4"
  shows "CHR '','' \<notin> set (string4 p)"
proof -
  from assms obtain a b c d where p: "p = [a, b, c, d]" by (rule length4E)
  show ?thesis
    using appendDecimal_no_comma[OF unat_byte[of a]] appendDecimal_no_comma[OF unat_byte[of b]]
      appendDecimal_no_comma[OF unat_byte[of c]] appendDecimal_no_comma[OF unat_byte[of d]]
    by (simp add: p string4_def)
qed

lemma To4_16:
  assumes "length ip = 16" "length (To4 ip) = 4"
  shows "ip = replicate 10 0 @ [0xff, 0xff] @ To4 ip"
proof -
  from assms have t: "take 10 ip = replicate 10 0" "ip ! 10 = 0xff" "ip ! 11 = 0xff"
    "To4 ip = drop 12 ip"
    by (auto simp: To4_def split: if_splits)
  have "ip = take 10 ip @ drop 10 ip" by simp
  also have "drop 10 ip = ip ! 10 # drop 11 ip"
    using assms(1) by (simp add: Cons_nth_drop_Suc[symmetric])
  also have "drop 11 ip = ip ! 11 # drop 12 ip"
    using assms(1) by (simp add: Cons_nth_drop_Suc[symmetric])
  finally show ?thesis using t by simp
qed

lemma To4_length: "length (To4 ip) = 4 \<Longrightarrow> length ip = 4 \<or> length ip = 16"
  by (auto simp: To4_def split: if_splits)

lemma ToConfig_valid:
  assumes "length (MacAddress e) = 6" "length (To4 (IPAddress e)) = 4" "HostName e \<noteq> []"
  shows "ToConfig e = (''dhcp-host='' @ hwBytes (MacAddress e) @ '','' @ string4 (To4 (IPAddress e))
                         @ '','' @ HostName e, None)"
proof -
  have m: "MacAddress e \<noteq> []" using assms(1) by auto
  have i: "IPAddress e \<noteq> []" using To4_length[OF assms(2)] by auto
  have "check e = None" using m i assms(3) by (simp add: check_None)
  moreover have "IPString (IPAddress e) = string4 (To4 (IPAddress e))"
    using To4_length[OF assms(2)] assms(2) by (auto simp: IPString_def)
  ultimately show ?thesis using m by (simp add: ToConfig_def HardwareAddrString_def)
qed

lemma FromConfig_ToConfig:
  assumes "length (MacAddress e) = 6" "length (To4 (IPAddress e)) = 4" "HostName e \<noteq> []"
    and "CHR '','' \<notin> set (HostName e)"
  shows "FromConfig h (fst (ToConfig e)) =
           (\<lparr>MacAddress = MacAddress e,
             IPAddress = replicate 10 0 @ [0xff, 0xff] @ To4 (IPAddress e),
             HostName = HostName e\<rparr>, None)"
proof -
  let ?m = "hwBytes (MacAddress e)" and ?i = "string4 (To4 (IPAddress e))"
  from assms(2) obtain a b c d where p: "To4 (IPAddress e) = [a, b, c, d]" by (rule length4E)
  have mne: "?m \<noteq> []" using assms(1) by (cases "MacAddress e" rule: hwBytes.cases) auto
  have hs: "HardwareAddrString (MacAddress e) = ?m"
    using assms(1) by (auto simp: HardwareAddrString_def)
  have c1: "CHR '','' \<notin> set (''dhcp-host='' @ ?m)" using hwBytes_ascii_word(2) by auto
  have c2: "CHR '','' \<notin> set ?i" using string4_no_comma[OF assms(2)] .
  have sp: "stringsSplit (fst (ToConfig e)) (CHR '','') = [''dhcp-host='' @ ?m, ?i, HostName e]"
  proof -
    have "fst (ToConfig e) = (''dhcp-host='' @ ?m) @ CHR '','' # (?i @ CHR '','' # HostName e)"
      by (simp add: ToConfig_valid[OF assms(1-3)])
    then show ?thesis
      by (simp only: stringsSplit_append[OF c1] stringsSplit_append[OF c2]
            stringsSplit_nosep[OF assms(4)])
  qed
  have sc: "Sscanf_dhcp_host (''dhcp-host='' @ ?m) = Inr ?m"
    using hwBytes_ascii_word(1) by (intro Sscanf_dhcp_host_word[OF mne]) blast
  have pm: "ParseMAC ?m = (MacAddress e, None)"
    using ParseMAC_HardwareAddrString[OF assms(1)] hs by simp
  have pi: "ParseIP ?i = replicate 10 0 @ [0xff, 0xff] @ To4 (IPAddress e)"
    unfolding p by (rule ParseIP_string4)
  show ?thesis
    using sp sc pm pi by (cases h) (simp add: FromConfig_def errorsJoin_def)
qed


section \<open>Evaluation at the inputs of the tests\<close>

lemma To4_mapped: "To4 (replicate 10 0 @ [0xff, 0xff, a, b, c, d]) = [a, b, c, d]"
  by (simp add: To4_def nth_append)

lemma hwBytes_ValidHost: "hwBytes [0x02, 0x04, 0x06, 0xaa, 0xbb, 0xcc] = ''02:04:06:aa:bb:cc''"
  by (simp add: hexDigit_def)

lemma string4_1111: "string4 [1, 1, 1, 1] = ''1.1.1.1''"
  by (simp add: string4_def appendDecimal_def hexDigit_def)

lemma ToConfig_ValidHost: "ToConfig ValidHost = (''dhcp-host=02:04:06:aa:bb:cc,1.1.1.1,Foo'', None)"
proof -
  have "ToConfig ValidHost = (''dhcp-host='' @ hwBytes (MacAddress ValidHost) @ '',''
          @ string4 (To4 (IPAddress ValidHost)) @ '','' @ HostName ValidHost, None)"
    by (rule ToConfig_valid) (simp_all add: ValidHost_def To4_mapped)
  then show ?thesis
    by (simp add: ValidHost_def To4_mapped string4_1111 hexDigit_def)
qed

lemma Sscanf_ValidHost: "Sscanf_dhcp_host ''dhcp-host=02:04:06:aa:bb:cc'' = Inr ''02:04:06:aa:bb:cc''"
  using Sscanf_dhcp_host_word[of "''02:04:06:aa:bb:cc''"] by (simp add: isSpace_def)

lemma ParseMAC_ValidHost:
  "ParseMAC ''02:04:06:aa:bb:cc'' = ([0x02, 0x04, 0x06, 0xaa, 0xbb, 0xcc], None)"
  using ParseMAC_HardwareAddrString[of "[0x02, 0x04, 0x06, 0xaa, 0xbb, 0xcc]"]
  by (simp add: HardwareAddrString_def hexDigit_def)

lemma Sscanf_empty_word: "Sscanf_dhcp_host ''dhcp-host='' = Inl EOF"
  by (simp add: Sscanf_dhcp_host_def decodeRune_def)

lemma Sscanf_bad_mac: "Sscanf_dhcp_host ''dhcp-host=ab:cd:ef:gh:ij:kl'' = Inr ''ab:cd:ef:gh:ij:kl''"
  using Sscanf_dhcp_host_word[of "''ab:cd:ef:gh:ij:kl''"] by (simp add: isSpace_def)

lemma ParseMAC_bad_mac: "snd (ParseMAC ''ab:cd:ef:gh:ij:kl'') \<noteq> None"
  by (simp add: ParseMAC_def Let_def upt_conv_Cons xtoi2_def xtoi_def hexVal_def)

lemma ParseMAC_Nil: "snd (ParseMAC []) \<noteq> None"
  by (simp add: ParseMAC_def)

lemma ParseIP_1111: "ParseIP ''1.1.1.1'' = replicate 10 0 @ [0xff, 0xff, 1, 1, 1, 1]"
  using ParseIP_string4[of 1 1 1 1] by (simp add: string4_1111)

lemma ParseIP_1111_not_Nil: "ParseIP ''1.1.1.1'' \<noteq> []"
  by (simp add: ParseIP_1111)

lemma ParseIP_bad_ip: "ParseIP ''11.1.1'' = []"
  by (simp add: ParseIP_def parseIPv4_def isDigit_def)

lemma ParseIP_loopback6: "ParseIP ''::1'' = [0, 0, 0, 0, 0, 0, 0, 0, 0, 0, 0, 0, 0, 0, 0, 1]"
proof -
  have e8: "(8::nat) = Suc 7" by simp
  have "parseIPv6Loop 8 [] (Some 0) ''1'' = Some ([0, 1], Some 0, [])"
    unfolding e8 parseIPv6Loop.simps by (simp add: hexVal_def)
  then have "parseIPv6 ''::1'' = Some (replicate 14 0 @ [0, 1])"
    by (simp add: parseIPv6_def)
  moreover have "replicate 14 0 @ [0, 1] = [0, 0, 0, 0, 0, 0, 0, 0, 0, 0, 0, 0, 0, 0, 0, 1 :: byte]"
    by (simp add: eval_nat_numeral)
  ultimately show ?thesis by (simp add: ParseIP_def)
qed

lemma appendTo6_done: "i \<ge> 8 \<Longrightarrow> appendTo6 gs zs ze i fuel = []"
  by (cases fuel) simp_all

lemma string6_loopback: "string6 [0, 0, 0, 0, 0, 0, 0, 0, 0, 0, 0, 0, 0, 0, 0, 1] = ''::1''"
proof -
  have g: "v6u16 [0, 0, 0, 0, 0, 0, 0, 0, 0, 0, 0, 0, 0, 0, 0, 1] = [0, 0, 0, 0, 0, 0, 0, 1]"
    by simp
  have z: "zeroRun [0, 0, 0, 0, 0, 0, 0, 1] [0 ..< 8] (255, 255) = (0, 7)"
    by (simp add: upt_conv_Cons zeroRunFrom_def Let_def)
  have e8: "(8::nat) = Suc 7" by simp
  have a: "appendTo6 [0, 0, 0, 0, 0, 0, 0, 1] 0 7 0 8 = ''::1''"
    unfolding e8 appendTo6.simps by (simp add: appendHex_def hexDigit_def appendTo6_done)
  show ?thesis by (simp only: string6_def Let_def g z fst_conv snd_conv a)
qed

section \<open>Encoding fails with every missing field\<close>

text \<open>
  Claim C5. When one or more of the three fields of an entry is unset, \<open>ToConfig\<close>
  fails: the line it returns is empty and the error wraps, for each of the MAC address,
  the IP address and the hostname, the missing-field error exactly when that field is
  unset, so that every missing field is reported and not only the first. The text of the
  error is the list of those messages, one on a line. Whenever \<open>ToConfig\<close> returns an
  error, whatever the entry, the line is empty.
\<close>

theorem ToConfig_reports_every_missing_field:
  "(MacAddress h = [] \<or> IPAddress h = [] \<or> HostName h = [] \<longrightarrow>
     (\<exists>e. ToConfig h = ([], Some e)
        \<and> (errorsIs e ErrDHCPHostMissingMACAddress \<longleftrightarrow> MacAddress h = [])
        \<and> (errorsIs e ErrDHCPHostMissingIPAddress \<longleftrightarrow> IPAddress h = [])
        \<and> (errorsIs e ErrDHCPHostMissingHostName \<longleftrightarrow> HostName h = [])
        \<and> Error e = stringsJoin
             ((if MacAddress h = [] then [Error ErrDHCPHostMissingMACAddress] else []) @
              (if IPAddress h = [] then [Error ErrDHCPHostMissingIPAddress] else []) @
              (if HostName h = [] then [Error ErrDHCPHostMissingHostName] else []))
             [CHR 0x0A]))
   \<and> (snd (ToConfig h) \<noteq> None \<longrightarrow> fst (ToConfig h) = [])"
proof (intro conjI impI)
  assume "MacAddress h = [] \<or> IPAddress h = [] \<or> HostName h = []"
  then show "\<exists>e. ToConfig h = ([], Some e)
        \<and> (errorsIs e ErrDHCPHostMissingMACAddress \<longleftrightarrow> MacAddress h = [])
        \<and> (errorsIs e ErrDHCPHostMissingIPAddress \<longleftrightarrow> IPAddress h = [])
        \<and> (errorsIs e ErrDHCPHostMissingHostName \<longleftrightarrow> HostName h = [])
        \<and> Error e = stringsJoin
             ((if MacAddress h = [] then [Error ErrDHCPHostMissingMACAddress] else []) @
              (if IPAddress h = [] then [Error ErrDHCPHostMissingIPAddress] else []) @
              (if HostName h = [] then [Error ErrDHCPHostMissingHostName] else []))
             [CHR 0x0A]"
    by (cases "MacAddress h = []"; cases "IPAddress h = []"; cases "HostName h = []")
       (simp_all add: ToConfig_def check_def errorsJoin_def List.map_filter_def
          HardwareAddrString_empty IPString_nil)
next
  assume "snd (ToConfig h) \<noteq> None"
  then show "fst (ToConfig h) = []"
    by (auto simp: ToConfig_def split: option.splits)
qed

text \<open>The entry with all three fields unset: the error matches all three.\<close>

theorem ToConfig_reports_every_missing_field_witness:
  "(MacAddress emptyHost = [] \<or> IPAddress emptyHost = [] \<or> HostName emptyHost = [])
   \<and> snd (ToConfig emptyHost) \<noteq> None
   \<and> (\<exists>e. ToConfig emptyHost = ([], Some e)
        \<and> errorsIs e ErrDHCPHostMissingMACAddress
        \<and> errorsIs e ErrDHCPHostMissingIPAddress
        \<and> errorsIs e ErrDHCPHostMissingHostName)
   \<and> fst (ToConfig emptyHost) = []"
proof -
  have m: "MacAddress emptyHost = []" "IPAddress emptyHost = []" "HostName emptyHost = []"
    by (simp_all add: emptyHost_def)
  from ToConfig_reports_every_missing_field[of emptyHost] m
  obtain e where e: "ToConfig emptyHost = ([], Some e)"
    "errorsIs e ErrDHCPHostMissingMACAddress" "errorsIs e ErrDHCPHostMissingIPAddress"
    "errorsIs e ErrDHCPHostMissingHostName"
    by auto
  then show ?thesis using m by auto
qed

section \<open>Decoding: which fields are written, which errors are joined\<close>

lemma ParseMAC_failure:
  assumes "snd (ParseMAC mac) \<noteq> None"
  shows "ParseMAC mac = ([], Some (AddrError ''invalid MAC address'' mac))"
proof -
  let ?F = "([], Some (AddrError ''invalid MAC address'' mac)) :: byte list \<times> error option"
  have fail: "\<And>c A B. (snd A \<noteq> None \<longrightarrow> A = ?F) \<Longrightarrow> (snd B \<noteq> None \<longrightarrow> B = ?F)
      \<Longrightarrow> (snd (if c then A else B) \<noteq> None \<longrightarrow> (if c then A else B) = ?F)"
    by simp
  have cs: "\<And>x. snd (case x of None \<Rightarrow> ?F | Some hw \<Rightarrow> (hw, None)) \<noteq> None
      \<longrightarrow> (case x of None \<Rightarrow> ?F | Some hw \<Rightarrow> (hw, None)) = ?F"
    by (simp split: option.split)
  have tf: "snd ?F \<noteq> None \<longrightarrow> ?F = ?F" by simp
  have "snd (ParseMAC mac) \<noteq> None \<longrightarrow> ParseMAC mac = ?F"
    unfolding ParseMAC_def Let_def by (intro fail cs tf)
  with assms show ?thesis by blast
qed

lemma FromConfig_scanned:
  assumes "length (stringsSplit config (CHR '','')) = 3"
    and "Sscanf_dhcp_host (stringsSplit config (CHR '','') ! 0) = Inr mac"
  shows "FromConfig h config =
     (\<lparr>MacAddress = fst (ParseMAC mac), IPAddress = ParseIP (stringsSplit config (CHR '','') ! 1),
       HostName = stringsSplit config (CHR '','') ! 2\<rparr>,
      if ParseIP (stringsSplit config (CHR '','') ! 1) = []
      then errorsJoin [snd (ParseMAC mac),
             Some (AddrError ''invalid IP address'' (stringsSplit config (CHR '','') ! 1))]
      else snd (ParseMAC mac))"
  using assms by (cases h) (simp add: FromConfig_def Let_def split: prod.splits)

lemma FromConfig_not_scanned:
  assumes "length (stringsSplit config (CHR '','')) = 3"
    and "Sscanf_dhcp_host (stringsSplit config (CHR '','') ! 0) = Inl err"
  shows "FromConfig h config = (h, Some (JoinError [errInvalidDHCPHostConfig config, err]))"
  using assms by (simp add: FromConfig_def Let_def errorsJoin_def List.map_filter_def)

lemma split_bad_both:
  "stringsSplit ''dhcp-host=ab:cd:ef:gh:ij:kl,11.1.1,Jung'' (CHR '','')
     = [''dhcp-host=ab:cd:ef:gh:ij:kl'', ''11.1.1'', ''Jung'']"
  by simp

lemma split_no_mac_bad_ip:
  "stringsSplit ''dhcp-host=,11.1.1,Jung'' (CHR '','') = [''dhcp-host='', ''11.1.1'', ''Jung'']"
  by simp

lemma split_no_mac:
  "stringsSplit ''dhcp-host=,1.1.1.1,Foo'' (CHR '','') = [''dhcp-host='', ''1.1.1.1'', ''Foo'']"
  by simp

lemma split_ValidHost:
  "stringsSplit ''dhcp-host=02:04:06:aa:bb:cc,1.1.1.1,Foo'' (CHR '','')
     = [''dhcp-host=02:04:06:aa:bb:cc'', ''1.1.1.1'', ''Foo'']"
  by simp

lemma split_loopback6:
  "stringsSplit ''dhcp-host=02:04:06:aa:bb:cc,::1,Foo'' (CHR '','')
     = [''dhcp-host=02:04:06:aa:bb:cc'', ''::1'', ''Foo'']"
  by simp

text \<open>
  Claim C4, as amended. The claim as written fails on a line whose MAC token holds no
  word, such as \<open>dhcp-host=,11.1.1,Jung\<close>: \<open>Sscanf\<close> fails there and \<open>FromConfig\<close>
  returns at once, before the IP token is examined. What holds: when the line has three
  tokens, \<open>Sscanf\<close> reads a word from the first, \<open>ParseMAC\<close> rejects that word and
  \<open>ParseIP\<close> rejects the second token, the error returned is one join of the
  invalid-MAC error and the invalid-IP error, in that order; it matches both for
  \<open>errors.Is\<close> and its text is the two complaints on two lines.
\<close>

theorem FromConfig_joins_both_address_errors:
  assumes "length (stringsSplit config (CHR '','')) = 3"
    and "Sscanf_dhcp_host (stringsSplit config (CHR '','') ! 0) = Inr mac"
    and "snd (ParseMAC mac) \<noteq> None"
    and "ParseIP (stringsSplit config (CHR '','') ! 1) = []"
  shows "snd (FromConfig h config) =
           Some (JoinError [AddrError ''invalid MAC address'' mac,
                            AddrError ''invalid IP address'' (stringsSplit config (CHR '','') ! 1)])
       \<and> (\<forall>e. snd (FromConfig h config) = Some e \<longrightarrow>
             errorsIs e (AddrError ''invalid MAC address'' mac)
           \<and> errorsIs e (AddrError ''invalid IP address'' (stringsSplit config (CHR '','') ! 1))
           \<and> Error e = Error (AddrError ''invalid MAC address'' mac) @ [CHR 0x0A]
                 @ Error (AddrError ''invalid IP address'' (stringsSplit config (CHR '','') ! 1)))"
  using ParseMAC_failure[OF assms(3)] assms(4)
  by (simp add: FromConfig_scanned[OF assms(1,2)] errorsJoin_def List.map_filter_def)

theorem FromConfig_joins_both_address_errors_witness:
  "length (stringsSplit ''dhcp-host=ab:cd:ef:gh:ij:kl,11.1.1,Jung'' (CHR '','')) = 3
   \<and> Sscanf_dhcp_host (stringsSplit ''dhcp-host=ab:cd:ef:gh:ij:kl,11.1.1,Jung'' (CHR '','') ! 0)
       = Inr ''ab:cd:ef:gh:ij:kl''
   \<and> snd (ParseMAC ''ab:cd:ef:gh:ij:kl'') \<noteq> None
   \<and> ParseIP (stringsSplit ''dhcp-host=ab:cd:ef:gh:ij:kl,11.1.1,Jung'' (CHR '','') ! 1) = []
   \<and> map_option Error (snd (FromConfig emptyHost ''dhcp-host=ab:cd:ef:gh:ij:kl,11.1.1,Jung''))
       = Some (''address ab:cd:ef:gh:ij:kl: invalid MAC address'' @ [CHR 0x0A]
               @ ''address 11.1.1: invalid IP address'')"
proof -
  let ?c = "''dhcp-host=ab:cd:ef:gh:ij:kl,11.1.1,Jung''"
  have a: "length (stringsSplit ?c (CHR '','')) = 3" by (simp only: split_bad_both) simp
  have b: "Sscanf_dhcp_host (stringsSplit ?c (CHR '','') ! 0) = Inr ''ab:cd:ef:gh:ij:kl''"
    by (simp only: split_bad_both nth_Cons_0 Sscanf_bad_mac)
  have c: "snd (ParseMAC ''ab:cd:ef:gh:ij:kl'') \<noteq> None" by (rule ParseMAC_bad_mac)
  have t1: "stringsSplit ?c (CHR '','') ! 1 = ''11.1.1''" by (simp only: split_bad_both) simp
  have d: "ParseIP (stringsSplit ?c (CHR '','') ! 1) = []" by (simp only: t1 ParseIP_bad_ip)
  from FromConfig_joins_both_address_errors[OF a b c d, of emptyHost]
  have "snd (FromConfig emptyHost ?c) =
          Some (JoinError [AddrError ''invalid MAC address'' ''ab:cd:ef:gh:ij:kl'',
                           AddrError ''invalid IP address'' ''11.1.1''])"
    by (simp only: t1)
  then have "map_option Error (snd (FromConfig emptyHost ?c))
       = Some (''address ab:cd:ef:gh:ij:kl: invalid MAC address'' @ [CHR 0x0A]
               @ ''address 11.1.1: invalid IP address'')"
    by simp
  with a b c d show ?thesis by blast
qed

text \<open>
  The claim as written, at \<open>dhcp-host=,11.1.1,Jung\<close>: three tokens, the prefix, a MAC
  token (empty) that \<open>ParseMAC\<close> rejects and an IP token that \<open>ParseIP\<close> rejects, but
  the error is the malformed-line error joined with \<open>io.EOF\<close>; it holds no invalid-IP
  error.
\<close>

theorem FromConfig_joins_both_address_errors_counterexample:
  "length (stringsSplit ''dhcp-host=,11.1.1,Jung'' (CHR '','')) = 3
   \<and> prefix ''dhcp-host='' ''dhcp-host=,11.1.1,Jung''
   \<and> snd (ParseMAC (drop 10 (stringsSplit ''dhcp-host=,11.1.1,Jung'' (CHR '','') ! 0))) \<noteq> None
   \<and> ParseIP (stringsSplit ''dhcp-host=,11.1.1,Jung'' (CHR '','') ! 1) = []
   \<and> snd (FromConfig emptyHost ''dhcp-host=,11.1.1,Jung'')
       = Some (JoinError [Errorf ''invalid DHCP host config: dhcp-host=,11.1.1,Jung'', EOF])
   \<and> \<not> errorsIs (JoinError [Errorf ''invalid DHCP host config: dhcp-host=,11.1.1,Jung'', EOF])
         (AddrError ''invalid IP address'' ''11.1.1'')
   \<and> Error (JoinError [Errorf ''invalid DHCP host config: dhcp-host=,11.1.1,Jung'', EOF])
       = ''invalid DHCP host config: dhcp-host=,11.1.1,Jung'' @ [CHR 0x0A] @ ''EOF''"
proof -
  let ?c = "''dhcp-host=,11.1.1,Jung''"
  have a: "length (stringsSplit ?c (CHR '','')) = 3" by (simp only: split_no_mac_bad_ip) simp
  have t0: "stringsSplit ?c (CHR '','') ! 0 = ''dhcp-host=''"
    by (simp only: split_no_mac_bad_ip) simp
  have t1: "stringsSplit ?c (CHR '','') ! 1 = ''11.1.1''"
    by (simp only: split_no_mac_bad_ip) simp
  have b: "Sscanf_dhcp_host (stringsSplit ?c (CHR '','') ! 0) = Inl EOF"
    by (simp only: t0 Sscanf_empty_word)
  have f: "snd (FromConfig emptyHost ?c)
       = Some (JoinError [Errorf ''invalid DHCP host config: dhcp-host=,11.1.1,Jung'', EOF])"
    by (simp add: FromConfig_not_scanned[OF a b] errInvalidDHCPHostConfig_def)
  have m: "snd (ParseMAC (drop 10 (stringsSplit ?c (CHR '','') ! 0))) \<noteq> None"
    by (simp only: t0) (simp add: ParseMAC_Nil)
  have i: "ParseIP (stringsSplit ?c (CHR '','') ! 1) = []" by (simp only: t1 ParseIP_bad_ip)
  have p: "prefix ''dhcp-host='' ?c" by simp
  have e: "\<not> errorsIs (JoinError [Errorf ''invalid DHCP host config: dhcp-host=,11.1.1,Jung'', EOF])
         (AddrError ''invalid IP address'' ''11.1.1'')" by simp
  have x: "Error (JoinError [Errorf ''invalid DHCP host config: dhcp-host=,11.1.1,Jung'', EOF])
       = ''invalid DHCP host config: dhcp-host=,11.1.1,Jung'' @ [CHR 0x0A] @ ''EOF''" by simp
  from a p m i f e x show ?thesis by blast
qed

text \<open>
  Claim C9, as amended. The claim as written fails on a prefixed three-token line whose
  first token holds no word after the prefix: \<open>Sscanf\<close> fails and \<open>FromConfig\<close> returns
  before any field is written. What holds for a line of three tokens: when \<open>Sscanf\<close>
  reads a word from the first token, all three fields of the receiver are overwritten,
  whether or not an error is returned: \<open>HostName\<close> with the third token, \<open>IPAddress\<close>
  with the result of \<open>ParseIP\<close> on the second (nil when it does not parse) and
  \<open>MacAddress\<close> with the result of \<open>ParseMAC\<close> on the word (nil when that fails); when
  \<open>Sscanf\<close> fails, the receiver is returned as it was, with the malformed-line error
  joined with the scan error.
\<close>

theorem FromConfig_assigns_fields:
  assumes "length (stringsSplit config (CHR '','')) = 3"
  shows "(\<forall>mac. Sscanf_dhcp_host (stringsSplit config (CHR '','') ! 0) = Inr mac \<longrightarrow>
            fst (FromConfig h config) =
              \<lparr>MacAddress = fst (ParseMAC mac),
               IPAddress = ParseIP (stringsSplit config (CHR '','') ! 1),
               HostName = stringsSplit config (CHR '','') ! 2\<rparr>)
       \<and> (\<forall>err. Sscanf_dhcp_host (stringsSplit config (CHR '','') ! 0) = Inl err \<longrightarrow>
            FromConfig h config = (h, Some (JoinError [errInvalidDHCPHostConfig config, err])))"
  using FromConfig_scanned[OF assms] FromConfig_not_scanned[OF assms] by simp

text \<open>
  A line with a malformed MAC and a malformed IP: an error is returned and the receiver
  has its hostname replaced and both addresses set to nil.
\<close>

theorem FromConfig_assigns_fields_witness:
  "length (stringsSplit ''dhcp-host=ab:cd:ef:gh:ij:kl,11.1.1,Jung'' (CHR '','')) = 3
   \<and> Sscanf_dhcp_host (stringsSplit ''dhcp-host=ab:cd:ef:gh:ij:kl,11.1.1,Jung'' (CHR '','') ! 0)
       = Inr ''ab:cd:ef:gh:ij:kl''
   \<and> fst (FromConfig ValidHost ''dhcp-host=ab:cd:ef:gh:ij:kl,11.1.1,Jung'')
       = \<lparr>MacAddress = [], IPAddress = [], HostName = ''Jung''\<rparr>"
proof -
  let ?c = "''dhcp-host=ab:cd:ef:gh:ij:kl,11.1.1,Jung''"
  have a: "length (stringsSplit ?c (CHR '','')) = 3" by (simp only: split_bad_both) simp
  have b: "Sscanf_dhcp_host (stringsSplit ?c (CHR '','') ! 0) = Inr ''ab:cd:ef:gh:ij:kl''"
    by (simp only: split_bad_both nth_Cons_0 Sscanf_bad_mac)
  have t1: "stringsSplit ?c (CHR '','') ! 1 = ''11.1.1''" by (simp only: split_bad_both) simp
  have t2: "stringsSplit ?c (CHR '','') ! 2 = ''Jung''" by (simp only: split_bad_both) simp
  have m: "fst (ParseMAC ''ab:cd:ef:gh:ij:kl'') = []"
    using ParseMAC_failure[OF ParseMAC_bad_mac] by simp
  from FromConfig_assigns_fields[OF a, of ValidHost] b
  have "fst (FromConfig ValidHost ?c) =
      \<lparr>MacAddress = fst (ParseMAC ''ab:cd:ef:gh:ij:kl''),
       IPAddress = ParseIP (stringsSplit ?c (CHR '','') ! 1),
       HostName = stringsSplit ?c (CHR '','') ! 2\<rparr>"
    by blast
  then have "fst (FromConfig ValidHost ?c) = \<lparr>MacAddress = [], IPAddress = [], HostName = ''Jung''\<rparr>"
    by (simp only: t1 t2 m ParseIP_bad_ip)
  with a b show ?thesis by blast
qed

text \<open>
  The claim as written, at \<open>dhcp-host=,1.1.1.1,Foo\<close>: three tokens, the prefix, a second
  token that parses as an IP address, but the receiver keeps its hostname \<open>Old\<close> and
  its empty IP address, and an error is returned.
\<close>

theorem FromConfig_assigns_fields_counterexample:
  "length (stringsSplit ''dhcp-host=,1.1.1.1,Foo'' (CHR '','')) = 3
   \<and> prefix ''dhcp-host='' ''dhcp-host=,1.1.1.1,Foo''
   \<and> stringsSplit ''dhcp-host=,1.1.1.1,Foo'' (CHR '','') ! 2 = ''Foo''
   \<and> ParseIP (stringsSplit ''dhcp-host=,1.1.1.1,Foo'' (CHR '','') ! 1) \<noteq> []
   \<and> FromConfig \<lparr>MacAddress = [], IPAddress = [], HostName = ''Old''\<rparr> ''dhcp-host=,1.1.1.1,Foo''
       = (\<lparr>MacAddress = [], IPAddress = [], HostName = ''Old''\<rparr>,
          Some (JoinError [Errorf ''invalid DHCP host config: dhcp-host=,1.1.1.1,Foo'', EOF]))"
proof -
  let ?c = "''dhcp-host=,1.1.1.1,Foo''"
  have a: "length (stringsSplit ?c (CHR '','')) = 3" by (simp only: split_no_mac) simp
  have t0: "stringsSplit ?c (CHR '','') ! 0 = ''dhcp-host=''" by (simp only: split_no_mac) simp
  have t1: "stringsSplit ?c (CHR '','') ! 1 = ''1.1.1.1''" by (simp only: split_no_mac) simp
  have t2: "stringsSplit ?c (CHR '','') ! 2 = ''Foo''" by (simp only: split_no_mac) simp
  have b: "Sscanf_dhcp_host (stringsSplit ?c (CHR '','') ! 0) = Inl EOF"
    by (simp only: t0 Sscanf_empty_word)
  have i: "ParseIP (stringsSplit ?c (CHR '','') ! 1) \<noteq> []"
    by (simp only: t1) (rule ParseIP_1111_not_Nil)
  have f: "FromConfig \<lparr>MacAddress = [], IPAddress = [], HostName = ''Old''\<rparr> ?c
       = (\<lparr>MacAddress = [], IPAddress = [], HostName = ''Old''\<rparr>,
          Some (JoinError [Errorf ''invalid DHCP host config: dhcp-host=,1.1.1.1,Foo'', EOF]))"
    by (simp add: FromConfig_not_scanned[OF a b] errInvalidDHCPHostConfig_def)
  have p: "prefix ''dhcp-host='' ?c" by simp
  from a p t2 i f show ?thesis by blast
qed

section \<open>Decoding accepts IPv6 addresses\<close>

text \<open>
  Claim C10. \<open>FromConfig\<close> takes as IP field whatever \<open>net.ParseIP\<close> accepts: the line
  \<open>dhcp-host=02:04:06:aa:bb:cc,::1,Foo\<close> decodes without error to an entry whose
  address is the IPv6 loopback address, which is no IPv4 address (\<open>To4\<close> gives nil) and
  prints as \<open>::1\<close>.
\<close>

theorem FromConfig_accepts_IPv6:
  "FromConfig emptyHost ''dhcp-host=02:04:06:aa:bb:cc,::1,Foo'' =
     (\<lparr>MacAddress = [0x02, 0x04, 0x06, 0xaa, 0xbb, 0xcc],
       IPAddress = [0, 0, 0, 0, 0, 0, 0, 0, 0, 0, 0, 0, 0, 0, 0, 1], HostName = ''Foo''\<rparr>, None)
   \<and> To4 [0, 0, 0, 0, 0, 0, 0, 0, 0, 0, 0, 0, 0, 0, 0, 1] = []
   \<and> IPString [0, 0, 0, 0, 0, 0, 0, 0, 0, 0, 0, 0, 0, 0, 0, 1] = ''::1''"
proof -
  let ?c = "''dhcp-host=02:04:06:aa:bb:cc,::1,Foo''"
  have a: "length (stringsSplit ?c (CHR '','')) = 3" by (simp only: split_loopback6) simp
  have b: "Sscanf_dhcp_host (stringsSplit ?c (CHR '','') ! 0) = Inr ''02:04:06:aa:bb:cc''"
    by (simp only: split_loopback6 nth_Cons_0 Sscanf_ValidHost)
  have t1: "stringsSplit ?c (CHR '','') ! 1 = ''::1''" by (simp only: split_loopback6) simp
  have t2: "stringsSplit ?c (CHR '','') ! 2 = ''Foo''" by (simp only: split_loopback6) simp
  have 1: "FromConfig emptyHost ?c =
     (\<lparr>MacAddress = [0x02, 0x04, 0x06, 0xaa, 0xbb, 0xcc],
       IPAddress = [0, 0, 0, 0, 0, 0, 0, 0, 0, 0, 0, 0, 0, 0, 0, 1], HostName = ''Foo''\<rparr>, None)"
    by (simp only: FromConfig_scanned[OF a b] t1 t2 ParseMAC_ValidHost ParseIP_loopback6) simp
  have 2: "To4 [0, 0, 0, 0, 0, 0, 0, 0, 0, 0, 0, 0, 0, 0, 0, 1] = []"
    by (simp add: To4_def)
  have 3: "IPString [0, 0, 0, 0, 0, 0, 0, 0, 0, 0, 0, 0, 0, 0, 0, 1] = ''::1''"
    by (simp add: IPString_def 2 string6_loopback)
  from 1 2 3 show ?thesis by blast
qed

section \<open>The round trip through the encoder and the decoder\<close>




section \<open>Properties of the read path\<close>

lemma rawLines_no_newline:
  "CHR 0x0A \<notin> set l \<Longrightarrow> rawLines cur l = (if cur @ l = [] then [] else [cur @ l])"
  by (induction l arbitrary: cur) auto

lemma rawLines_line:
  "CHR 0x0A \<notin> set l \<Longrightarrow> rawLines cur (l @ CHR 0x0A # rest) = (cur @ l) # rawLines [] rest"
  by (induction l arbitrary: cur) auto

lemma parseLines_acc:
  "parseLines ls hosts =
     (case parseLines ls [] of (hs, None) \<Rightarrow> (hosts @ hs, None) | (hs, Some e) \<Rightarrow> ([], Some e))"
proof (induction ls arbitrary: hosts)
  case Nil
  show ?case by simp
next
  case (Cons l ls)
  show ?case
  proof (cases "prefix ''dhcp-host='' l")
    case False
    then show ?thesis using Cons.IH[of hosts] by simp
  next
    case True
    obtain host err where f: "FromConfig emptyHost l = (host, err)" by (cases "FromConfig emptyHost l")
    show ?thesis
    proof (cases err)
      case None
      then show ?thesis
        using True f Cons.IH[of "hosts @ [host]"] Cons.IH[of "[host]"]
        by (auto split: prod.splits option.splits)
    next
      case (Some e)
      then show ?thesis using True f by simp
    qed
  qed
qed

lemma parseLines_unprefixed:
  "\<forall>l \<in> set ls. \<not> prefix ''dhcp-host='' l \<Longrightarrow> parseLines ls hosts = (hosts, None)"
  by (induction ls arbitrary: hosts) auto

lemma parseLines_corrupt:
  assumes "l \<in> set ls" "prefix ''dhcp-host='' l" "snd (FromConfig emptyHost l) \<noteq> None"
  shows "\<exists>e. parseLines ls hosts = ([], Some e)"
  using assms
proof (induction ls arbitrary: hosts)
  case Nil
  then show ?case by simp
next
  case (Cons x xs)
  show ?case
  proof (cases "x = l")
    case True
    then show ?thesis using Cons.prems by (auto split: prod.splits option.splits)
  next
    case False
    then have "l \<in> set xs" using Cons.prems by simp
    then show ?thesis
      using Cons.IH Cons.prems(2,3) by (auto split: prod.splits option.splits)
  qed
qed

text \<open>
  A file whose lines all lack the prefix is read without error and gives no entry,
  whatever the length of its lines.
\<close>

lemma parse_unprefixed:
  assumes "\<forall>l \<in> set (rawLines [] input). \<not> prefix ''dhcp-host='' l"
  shows "parse input = ([], None)"
proof -
  have "\<not> prefix ''dhcp-host='' (dropCR l)" if "\<not> prefix ''dhcp-host='' l" for l
  proof
    assume p: "prefix ''dhcp-host='' (dropCR l)"
    have "prefix (dropCR l) l" by (auto simp: dropCR_def prefix_def intro: append_butlast_last_id[symmetric])
    with p have "prefix ''dhcp-host='' l" by (rule prefix_order.trans)
    with that show False by simp
  qed
  then have "\<forall>l \<in> set (scanLines input). \<not> prefix ''dhcp-host='' l"
    using assms by (auto simp: scanLines_def dest: set_takeWhileD)
  then show ?thesis by (simp add: parse_def parseLines_unprefixed)
qed

text \<open>
  When every line fits the buffer of the scanner, a line with the prefix that does not
  decode makes the whole read fail, with no entries.
\<close>

lemma parse_corrupt_line:
  assumes "\<forall>l \<in> set (rawLines [] input). length l < MaxScanTokenSize"
    and "l \<in> set (rawLines [] input)"
    and "prefix ''dhcp-host='' (dropCR l)"
    and "snd (FromConfig emptyHost (dropCR l)) \<noteq> None"
  shows "\<exists>e. parse input = ([], Some e)"
proof -
  have tw: "takeWhile (\<lambda>l. length l < MaxScanTokenSize) (rawLines [] input)
      = rawLines [] input"
    using assms(1) by (simp add: takeWhile_eq_all_conv)
  have "dropCR l \<in> set (scanLines input)"
    unfolding scanLines_def tw using assms(2) by simp
  then show ?thesis
    unfolding parse_def by (rule parseLines_corrupt[OF _ assms(3,4)])
qed

section \<open>Lines written by the repository are read back\<close>

lemma FromConfig_ValidHost:
  "FromConfig emptyHost ''dhcp-host=02:04:06:aa:bb:cc,1.1.1.1,Foo'' = (ValidHost, None)"
proof -
  have "FromConfig emptyHost (fst (ToConfig ValidHost)) =
           (\<lparr>MacAddress = MacAddress ValidHost,
             IPAddress = replicate 10 0 @ [0xff, 0xff] @ To4 (IPAddress ValidHost),
             HostName = HostName ValidHost\<rparr>, None)"
    by (rule FromConfig_ToConfig) (simp_all add: ValidHost_def To4_mapped)
  then show ?thesis
    by (simp add: ToConfig_ValidHost) (simp add: ValidHost_def To4_mapped)
qed

lemma hwBytes_length6: "length m = 6 \<Longrightarrow> length (hwBytes m) = 17"
  by (erule length6E) simp

lemma hwBytes_no_newline: "CHR 0x0A \<notin> set (hwBytes m)"
proof
  assume "CHR 0x0A \<in> set (hwBytes m)"
  from hwBytes_chars[OF this] obtain n where n: "n < 16" "CHR 0x0A = hexDigit n" by auto
  from hexDigit_props(4)[OF n(1)] n(2) show False by simp
qed

lemma appendDecimal_length: "length (appendDecimal x) \<le> 3"
  by (simp add: appendDecimal_def)

lemma appendDecimal_no_newline: "x < 256 \<Longrightarrow> CHR 0x0A \<notin> set (appendDecimal x)"
  using appendDecimal_chars[of x "CHR 0x0A"] by (auto simp: isDigit_def)

lemma string4_line:
  assumes "length p = 4"
  shows "length (string4 p) \<le> 15" and "CHR 0x0A \<notin> set (string4 p)"
proof -
  from assms obtain a b c d where p: "p = [a, b, c, d]" by (rule length4E)
  show "length (string4 p) \<le> 15"
    using appendDecimal_length[of "unat a"] appendDecimal_length[of "unat b"]
      appendDecimal_length[of "unat c"] appendDecimal_length[of "unat d"]
    by (simp add: p string4_def)
  show "CHR 0x0A \<notin> set (string4 p)"
    using appendDecimal_no_newline[OF unat_byte[of a]] appendDecimal_no_newline[OF unat_byte[of b]]
      appendDecimal_no_newline[OF unat_byte[of c]] appendDecimal_no_newline[OF unat_byte[of d]]
    by (simp add: p string4_def)
qed

lemma validEntry_line:
  assumes "validEntry h"
  shows "ToConfig h = (''dhcp-host='' @ hwBytes (MacAddress h) @ '','' @ string4 (To4 (IPAddress h))
                         @ '','' @ HostName h, None)"
    and "FromConfig emptyHost (fst (ToConfig h)) = (h, None)"
    and "prefix ''dhcp-host='' (fst (ToConfig h))"
    and "CHR 0x0A \<notin> set (fst (ToConfig h))"
    and "length (fst (ToConfig h)) < MaxScanTokenSize"
    and "dropCR (fst (ToConfig h)) = fst (ToConfig h)"
    and "fst (ToConfig h) \<noteq> []"
proof -
  from assms have v: "length (MacAddress h) = 6" "length (IPAddress h) = 16"
    "length (To4 (IPAddress h)) = 4" "HostName h \<noteq> []" "CHR '','' \<notin> set (HostName h)"
    "CHR 0x0A \<notin> set (HostName h)" "last (HostName h) \<noteq> CHR 0x0D" "length (HostName h) \<le> 253"
    by (simp_all add: validEntry_def)
  show t: "ToConfig h = (''dhcp-host='' @ hwBytes (MacAddress h) @ '','' @ string4 (To4 (IPAddress h))
                         @ '','' @ HostName h, None)"
    by (rule ToConfig_valid[OF v(1,3,4)])
  have "FromConfig emptyHost (fst (ToConfig h)) =
           (\<lparr>MacAddress = MacAddress h,
             IPAddress = replicate 10 0 @ [0xff, 0xff] @ To4 (IPAddress h),
             HostName = HostName h\<rparr>, None)"
    by (rule FromConfig_ToConfig[OF v(1,3,4,5)])
  then show "FromConfig emptyHost (fst (ToConfig h)) = (h, None)"
    using To4_16[OF v(2,3)] by (cases h) simp
  show "prefix ''dhcp-host='' (fst (ToConfig h))" by (simp add: t)
  show "CHR 0x0A \<notin> set (fst (ToConfig h))"
    using hwBytes_no_newline string4_line(2)[OF v(3)] v(6) by (simp add: t)
  show "length (fst (ToConfig h)) < MaxScanTokenSize"
    using hwBytes_length6[OF v(1)] string4_line(1)[OF v(3)] v(8)
    by (simp add: t MaxScanTokenSize_def)
  show "dropCR (fst (ToConfig h)) = fst (ToConfig h)"
    using v(4,7) by (simp add: t dropCR_def)
  show "fst (ToConfig h) \<noteq> []" by (simp add: t)
qed

lemma encodeAll_valid:
  "\<forall>h \<in> set hs. validEntry h \<Longrightarrow> encodeAll hs = (map (\<lambda>h. fst (ToConfig h)) hs, None)"
proof (induction hs)
  case Nil
  show ?case by simp
next
  case (Cons h hs)
  then have "validEntry h" by simp
  from validEntry_line(1)[OF this] Cons show ?case by simp
qed

lemma rawLines_join:
  "\<forall>l \<in> set ls. l \<noteq> [] \<and> CHR 0x0A \<notin> set l \<Longrightarrow> rawLines [] (stringsJoin ls [CHR 0x0A]) = ls"
proof (induction ls "[CHR 0x0A]" rule: stringsJoin.induct)
  case 1
  show ?case by simp
next
  case (2 x)
  then show ?case by (simp add: rawLines_no_newline)
next
  case (3 x y ys)
  then have "rawLines [] (x @ CHR 0x0A # stringsJoin (y # ys) [CHR 0x0A])
      = ([] @ x) # rawLines [] (stringsJoin (y # ys) [CHR 0x0A])"
    by (intro rawLines_line) simp
  with 3 show ?case by simp
qed

lemma parseLines_valid:
  "\<forall>h \<in> set hs. validEntry h \<Longrightarrow> parseLines (map (\<lambda>h. fst (ToConfig h)) hs) acc = (acc @ hs, None)"
proof (induction hs arbitrary: acc)
  case Nil
  show ?case by simp
next
  case (Cons h hs)
  then have v: "validEntry h" by simp
  show ?case
    using validEntry_line(2,3)[OF v] Cons.IH[of "acc @ [h]"] Cons.prems by simp
qed

text \<open>What a mutation writes for a list of valid entries is read back as that list.\<close>

lemma parse_serialised:
  assumes "\<forall>h \<in> set hs. validEntry h"
  shows "parse (stringsJoin (map (\<lambda>h. fst (ToConfig h)) hs) [CHR 0x0A]) = (hs, None)"
proof -
  let ?ls = "map (\<lambda>h. fst (ToConfig h)) hs"
  have r: "rawLines [] (stringsJoin ?ls [CHR 0x0A]) = ?ls"
    using assms validEntry_line(4,7) by (intro rawLines_join) auto
  have t: "takeWhile (\<lambda>l. length l < MaxScanTokenSize) ?ls = ?ls"
    using assms validEntry_line(5) by (auto simp: takeWhile_eq_all_conv)
  have d: "map dropCR ?ls = ?ls"
    using assms validEntry_line(6) by (auto intro: map_idI)
  have "scanLines (stringsJoin ?ls [CHR 0x0A]) = ?ls"
    by (simp only: scanLines_def r t d)
  then show ?thesis using parseLines_valid[OF assms, of "[]"] by (simp add: parse_def)
qed

end
